theory Spec2Isabelle
  imports Complex_Main "HOL-Library.Multiset"
begin

section \<open>Numeric conventions\<close>

text \<open>
  Python floats are modelled as exact reals: \<open>+\<close>, \<open>*\<close>, \<open>/\<close>, \<open>max\<close>, \<open>min\<close> and the
  comparisons are those of \<^typ>\<open>real\<close>. A value the code sets to NaN on purpose
  (\<open>np.full(max_lag, np.nan)\<close>) is \<open>None\<close>. A dictionary read with a default,
  \<open>d.get(k, v)\<close>, is an optional field read through \<open>get_default\<close>.
\<close>

definition get_default :: "'a \<Rightarrow> 'a option \<Rightarrow> 'a" where
  "get_default d x = (case x of None \<Rightarrow> d | Some v \<Rightarrow> v)"

text \<open>
  Python's \<open>round(x, n)\<close> rounds to \<open>n\<close> decimals, a tie going to the even neighbour.
\<close>

definition round_half_even :: "real \<Rightarrow> int" where
  "round_half_even x =
     (let f = \<lfloor>x\<rfloor>; d = x - of_int f
      in if d < 1/2 then f
         else if 1/2 < d then f + 1
         else if even f then f else f + 1)"

definition py_round :: "nat \<Rightarrow> real \<Rightarrow> real" where
  "py_round n x = of_int (round_half_even (x * 10 ^ n)) / 10 ^ n"

text \<open>
  Python's \<open>min(xs, key=f)\<close> and \<open>max(xs, key=f)\<close> on a non-empty sequence: the first
  element whose key is extremal (a later element replaces the current one only when its key
  is strictly better). The first argument is the current best.
\<close>

fun min_by :: "('a \<Rightarrow> real) \<Rightarrow> 'a \<Rightarrow> 'a list \<Rightarrow> 'a" where
  "min_by f m [] = m"
| "min_by f m (x # xs) = min_by f (if f x < f m then x else m) xs"

fun max_by :: "('a \<Rightarrow> real) \<Rightarrow> 'a \<Rightarrow> 'a list \<Rightarrow> 'a" where
  "max_by f m [] = m"
| "max_by f m (x # xs) = max_by f (if f m < f x then x else m) xs"

datatype py_error = KeyError

section \<open>Directional engine: thesis decision tree (directional_engine.py)\<close>

text \<open>
  The dictionaries read by \<open>classify_thesis\<close>, with the keys the thesis depends on. A key
  that may be absent is an optional field; nested dictionaries read as
  \<open>d.get(k1, {}).get(k2, v)\<close> are flattened into one optional field.
\<close>

record acf_reading =
  acf_regime :: "string option"
  mean_acf1 :: "real option"
  pct_amplified :: "real option"
  pct_dampened :: "real option"
  sei_regime :: "string option"

record reynolds_reading =
  reynolds_number :: "real option"
  re_regime :: "string option"

record technicals =
  beta_60d :: "real option"
  gex_entropy_regime :: "string option"

datatype thesis =
  MOMENTUM_BREAKOUT | MOMENTUM_EARLY | CONFLICTED_PIN | MOMENTUM_TREND
  | FADE_MOVES | FADE_MILD | NEUTRAL

text \<open>\<open>technicals or {}\<close>: an absent technicals dictionary reads as one with no keys.\<close>

definition tech_or_empty :: "technicals option \<Rightarrow> technicals" where
  "tech_or_empty t =
     get_default \<lparr>beta_60d = None, gex_entropy_regime = None\<rparr> t"

definition entropy_regime :: "technicals option \<Rightarrow> string" where
  "entropy_regime t = get_default ''DISPERSED'' (gex_entropy_regime (tech_or_empty t))"

definition re_gamma_adj :: "reynolds_reading \<Rightarrow> technicals option \<Rightarrow> real" where
  "re_gamma_adj reynolds t =
     (let re_gamma = get_default 0 (reynolds_number reynolds);
          beta = get_default 1.0 (beta_60d (tech_or_empty t));
          beta_adj = 1.0 / max beta 0.3
      in re_gamma * beta_adj)"

definition acf_net_momentum :: "acf_reading \<Rightarrow> bool" where
  "acf_net_momentum acf =
     (let acf1 = get_default 0 (mean_acf1 acf);
          pct_amp = get_default 0 (pct_amplified acf);
          pct_damp = get_default 0 (pct_dampened acf);
          sei = get_default ''NONE'' (sei_regime acf)
      in (pct_amp > pct_damp \<and> (pct_amp > 13 \<or> acf1 > 0.05))
         \<or> ((sei = ''HIGH_EXCITATION'' \<or> sei = ''MODERATE_EXCITATION'') \<and> acf1 > 0))"

definition effective_re :: "reynolds_reading \<Rightarrow> technicals option \<Rightarrow> real" where
  "effective_re reynolds t =
     (if entropy_regime t = ''CRITICAL''
         \<and> get_default ''LAMINAR'' (re_regime reynolds) = ''TRANSITIONAL''
      then max (re_gamma_adj reynolds t) 1.05
      else re_gamma_adj reynolds t)"

text \<open>
  The \<open>thesis\<close> entry of the dictionary returned by \<open>classify_thesis\<close>; the other
  entries (bias, positions, level actions, wall break) are computed from it afterwards.
\<close>

definition classify_thesis :: "acf_reading \<Rightarrow> reynolds_reading \<Rightarrow> technicals option \<Rightarrow> thesis" where
  "classify_thesis acf reynolds t =
     (let regime = get_default ''NEUTRAL'' (acf_regime acf);
          acf1 = get_default 0 (mean_acf1 acf);
          pct_amp = get_default 0 (pct_amplified acf);
          pct_damp = get_default 0 (pct_dampened acf);
          eff = effective_re reynolds t
      in if eff > 1.0 \<and> acf_net_momentum acf then MOMENTUM_BREAKOUT
         else if eff > 1.0 then MOMENTUM_EARLY
         else if pct_amp > pct_damp \<and> pct_amp > 13 \<and> eff < 0.7 then CONFLICTED_PIN
         else if regime = ''SHORT_GAMMA'' \<or> acf1 > 0.05 then MOMENTUM_TREND
         else if regime = ''LONG_GAMMA'' \<and> acf1 < -0.10 then FADE_MOVES
         else if regime = ''LONG_GAMMA'' then FADE_MILD
         else NEUTRAL)"

section \<open>Directional engine: Kelly sizing (directional_engine.py)\<close>

text \<open>
  The label returned beside the percentage is an f-string holding the percentage and one of
  four fixed texts; it is modelled by its tier and the number it prints.
\<close>

datatype kelly_label =
  Label_zero
  | Full_conviction real
  | Standard real
  | Reduced_vol_headwind real
  | Minimal_unfavorable real

definition regime_scale :: "real \<Rightarrow> string \<Rightarrow> real" where
  "regime_scale iv_hv_ratio vrp_context =
     (if iv_hv_ratio > 1.5 \<or> vrp_context = ''HIGH_PREMIUM'' then 0.7
      else if iv_hv_ratio > 1.3 \<and> vrp_context = ''MODERATE_PREMIUM'' then 0.8
      else if iv_hv_ratio < 0.9 \<or> vrp_context = ''DISCOUNT'' then 1.2
      else 1.0)"

definition kelly_half :: "real \<Rightarrow> real \<Rightarrow> real" where
  "kelly_half edge_pct win_prob =
     (let b = max (edge_pct / 100) 0.5;
          p = min (win_prob / 100) 0.9;
          q = 1 - p;
          kelly_full = (if b > 0 then (b * p - q) / b else 0)
      in max 0 (kelly_full * 0.5))"

definition kelly_size :: "real \<Rightarrow> real \<Rightarrow> real \<Rightarrow> string \<Rightarrow> real \<times> kelly_label" where
  "kelly_size edge_pct win_prob iv_hv_ratio vrp_context =
     (if edge_pct \<le> 0 \<or> win_prob \<le> 0 then (0, Label_zero)
      else
        let final_pct0 =
              py_round 1 (kelly_half edge_pct win_prob * regime_scale iv_hv_ratio vrp_context * 100);
            final_pct = max 0.25 (min 5.0 final_pct0)
        in (final_pct,
            if final_pct \<ge> 3.0 then Full_conviction final_pct
            else if final_pct \<ge> 1.5 then Standard final_pct
            else if final_pct \<ge> 0.75 then Reduced_vol_headwind final_pct
            else Minimal_unfavorable final_pct))"

section \<open>Wall/pain locator: max pain (max_pain.py)\<close>

text \<open>
  One record of an option chain leg. \<open>c["strike"]\<close> raises KeyError when the key is
  absent, \<open>c.get("openInterest", 0)\<close> and \<open>c.get("impliedVolatility", 0.3)\<close> fall back
  to a default, so all three are optional fields.
\<close>

record quote =
  strike :: "real option"
  openInterest :: "int option"
  impliedVolatility :: "real option"

text \<open>The two loops that fill \<open>call_data\<close> and \<open>put_data\<close> with (strike, OI) pairs.\<close>

fun leg_data :: "quote list \<Rightarrow> py_error + (real \<times> int) list" where
  "leg_data [] = Inr []"
| "leg_data (c # cs) =
     (case strike c of
        None \<Rightarrow> Inl KeyError
      | Some k \<Rightarrow>
          (case leg_data cs of
             Inl e \<Rightarrow> Inl e
           | Inr r \<Rightarrow> Inr ((k, get_default 0 (openInterest c)) # r)))"

text \<open>The body of the loop over candidate strikes: \<open>total_pain\<close> before rounding.\<close>

definition total_pain_at :: "(real \<times> int) list \<Rightarrow> (real \<times> int) list \<Rightarrow> real \<Rightarrow> real" where
  "total_pain_at call_data put_data test_price =
     (\<Sum>(k, oi) \<leftarrow> call_data. if test_price > k then (test_price - k) * of_int oi * 100 else 0)
     + (\<Sum>(k, oi) \<leftarrow> put_data. if test_price < k then (k - test_price) * of_int oi * 100 else 0)"

record pain_entry =
  pain_strike :: real
  total_pain :: real

record max_pain_result =
  max_pain :: real
  max_pain_value :: "real option"
  pain_by_strike :: "pain_entry list"

text \<open>
  The result dictionary has no \<open>max_pain_value\<close> key when the chain has no strike.
\<close>

definition calculate_max_pain :: "quote list \<Rightarrow> quote list \<Rightarrow> py_error + max_pain_result" where
  "calculate_max_pain calls puts =
     (case leg_data calls of
        Inl e \<Rightarrow> Inl e
      | Inr call_data \<Rightarrow>
     (case leg_data puts of
        Inl e \<Rightarrow> Inl e
      | Inr put_data \<Rightarrow>
          let strikes = sorted_list_of_set (set (map fst call_data) \<union> set (map fst put_data));
              entries = map (\<lambda>test_price.
                          \<lparr>pain_strike = test_price,
                           total_pain = py_round 2 (total_pain_at call_data put_data test_price)\<rparr>)
                        strikes
          in (case entries of
                [] \<Rightarrow> Inr \<lparr>max_pain = 0, max_pain_value = None, pain_by_strike = []\<rparr>
              | e # es \<Rightarrow>
                  let max_pain_entry = min_by total_pain e es
                  in Inr \<lparr>max_pain = pain_strike max_pain_entry,
                          max_pain_value = Some (total_pain max_pain_entry),
                          pain_by_strike = entries\<rparr>)))"

text \<open>
  The quantities the max-pain properties speak about: the strikes that appear in the chain,
  and the total pain at a candidate strike as the specification writes it, the sum over
  calls of \<open>max(0, s - k) * OI * 100\<close> plus the sum over puts of \<open>max(0, k - s) * OI * 100\<close>,
  stored rounded to cents.
\<close>

definition chain_strikes :: "quote list \<Rightarrow> quote list \<Rightarrow> real set" where
  "chain_strikes calls puts = {k. \<exists>c \<in> set calls \<union> set puts. strike c = Some k}"

definition spec_total_pain :: "quote list \<Rightarrow> quote list \<Rightarrow> real \<Rightarrow> real" where
  "spec_total_pain calls puts s =
     (\<Sum>c \<leftarrow> calls. case strike c of None \<Rightarrow> 0
        | Some k \<Rightarrow> max 0 (s - k) * of_int (get_default 0 (openInterest c)) * 100)
     + (\<Sum>p \<leftarrow> puts. case strike p of None \<Rightarrow> 0
        | Some k \<Rightarrow> max 0 (k - s) * of_int (get_default 0 (openInterest p)) * 100)"

definition stored_pain :: "quote list \<Rightarrow> quote list \<Rightarrow> real \<Rightarrow> real" where
  "stored_pain calls puts s = py_round 2 (spec_total_pain calls puts s)"

section \<open>Greeks primitives (gex_calculator.py)\<close>

text \<open>
  \<open>np.log\<close>, \<open>np.sqrt\<close> and \<open>np.exp\<close> are \<open>ln\<close>, \<open>sqrt\<close> and \<open>exp\<close> on the reals.
  \<open>scipy.stats.norm\<close> is the standard normal distribution: its density is written out,
  and its distribution function is given by its power series around 0,
  \<open>1/2 + (\<Sum>n. (-1)^n x^(2n+1) / (2^n n! (2n+1))) / sqrt (2 pi)\<close>.
\<close>

definition norm_pdf :: "real \<Rightarrow> real" where
  "norm_pdf x = exp (- x\<^sup>2 / 2) / sqrt (2 * pi)"

definition norm_cdf :: "real \<Rightarrow> real" where
  "norm_cdf x =
     1/2 + (\<Sum>n. (-1) ^ n * x ^ (2 * n + 1) / (2 ^ n * fact n * of_nat (2 * n + 1))) / sqrt (2 * pi)"

definition SHARES_PER_CONTRACT :: real where
  "SHARES_PER_CONTRACT = 100"

text \<open>
  The Greeks divide by the strike \<open>K\<close> after their guard; every call in this repository
  passes a positive strike, and the statements below are either about the guard or about
  positive strikes.
\<close>

definition black_scholes_gamma :: "real \<Rightarrow> real \<Rightarrow> real \<Rightarrow> real \<Rightarrow> real \<Rightarrow> real" where
  "black_scholes_gamma S K T r sigma =
     (if T \<le> 0 \<or> sigma \<le> 0 \<or> S \<le> 0 then 0.0
      else
        let d1 = (ln (S / K) + (r + 0.5 * sigma\<^sup>2) * T) / (sigma * sqrt T)
        in norm_pdf d1 / (S * sigma * sqrt T))"

definition black_scholes_delta :: "real \<Rightarrow> real \<Rightarrow> real \<Rightarrow> real \<Rightarrow> real \<Rightarrow> string \<Rightarrow> real" where
  "black_scholes_delta S K T r sigma option_type =
     (if T \<le> 0 \<or> sigma \<le> 0 \<or> S \<le> 0 then 0.0
      else
        let d1 = (ln (S / K) + (r + 0.5 * sigma\<^sup>2) * T) / (sigma * sqrt T)
        in if option_type = ''call'' then norm_cdf d1 else norm_cdf d1 - 1)"

definition black_scholes_charm :: "real \<Rightarrow> real \<Rightarrow> real \<Rightarrow> real \<Rightarrow> real \<Rightarrow> string \<Rightarrow> real" where
  "black_scholes_charm S K T r sigma option_type =
     (if T \<le> 0.001 \<or> sigma \<le> 0 \<or> S \<le> 0 then 0.0
      else
        let sqrt_T = sqrt T;
            d1 = (ln (S / K) + (r + 0.5 * sigma\<^sup>2) * T) / (sigma * sqrt_T);
            d2 = d1 - sigma * sqrt_T;
            charm_base = - norm_pdf d1 * (2 * r * T - d2 * sigma * sqrt_T) / (2 * T * sigma * sqrt_T)
        in if option_type = ''put''
           then charm_base + r * exp (- r * T) * norm_cdf (- d2)
           else charm_base - r * exp (- r * T) * norm_cdf d2)"

definition black_scholes_vanna :: "real \<Rightarrow> real \<Rightarrow> real \<Rightarrow> real \<Rightarrow> real \<Rightarrow> real" where
  "black_scholes_vanna S K T r sigma =
     (if T \<le> 0.001 \<or> sigma \<le> 0 \<or> S \<le> 0 then 0.0
      else
        let sqrt_T = sqrt T;
            d1 = (ln (S / K) + (r + 0.5 * sigma\<^sup>2) * T) / (sigma * sqrt_T);
            d2 = d1 - sigma * sqrt_T
        in - norm_pdf d1 * d2 / sigma)"

section \<open>Exposure builder (gex_calculator.py)\<close>

text \<open>
  One entry of \<open>gex_by_strike\<close>. The key \<open>strike\<close> of the dictionary is the field
  \<open>row_strike\<close>; the other fields carry the names of their keys.
\<close>

record exposure_row =
  row_strike :: real
  call_oi :: int
  put_oi :: int
  call_gex :: real
  put_gex :: real
  net_gex :: real
  call_delta :: real
  put_delta :: real
  net_dealer_delta :: real
  call_charm :: real
  put_charm :: real
  net_charm :: real
  call_vanna :: real
  put_vanna :: real
  net_vanna :: real

text \<open>
  The two loops over the legs: a record whose strike is absent or not positive is skipped,
  the others enter the strike set and the per-leg dictionary, a later record replacing an
  earlier one with the same strike.
\<close>

definition leg_strike :: "quote \<Rightarrow> real" where
  "leg_strike c = get_default 0 (strike c)"

definition leg_strikes :: "quote list \<Rightarrow> real set" where
  "leg_strikes qs = set (filter (\<lambda>k. \<not> k \<le> 0) (map leg_strike qs))"

definition leg_map :: "quote list \<Rightarrow> (real \<rightharpoonup> quote)" where
  "leg_map qs =
     fold (\<lambda>c m. if leg_strike c \<le> 0 then m else m(leg_strike c \<mapsto> c)) qs Map.empty"

text \<open>\<open>m.get(k, {}).get("openInterest", 0)\<close> and \<open>m.get(k, {}).get("impliedVolatility", 0.3)\<close>.\<close>

definition map_oi :: "(real \<rightharpoonup> quote) \<Rightarrow> real \<Rightarrow> int" where
  "map_oi m k = (case m k of None \<Rightarrow> 0 | Some c \<Rightarrow> get_default 0 (openInterest c))"

definition map_iv :: "(real \<rightharpoonup> quote) \<Rightarrow> real \<Rightarrow> real" where
  "map_iv m k = (case m k of None \<Rightarrow> 0.3 | Some c \<Rightarrow> get_default 0.3 (impliedVolatility c))"

text \<open>The unrounded \<open>call_gex\<close> and \<open>put_gex\<close> of one pass of the loop over strikes.\<close>

definition strike_call_gex :: "(real \<rightharpoonup> quote) \<Rightarrow> real \<Rightarrow> real \<Rightarrow> real \<Rightarrow> real \<Rightarrow> real" where
  "strike_call_gex call_map spot T r k =
     black_scholes_gamma spot k T r (max (map_iv call_map k) 0.01)
       * of_int (map_oi call_map k) * SHARES_PER_CONTRACT * spot"

definition strike_put_gex :: "(real \<rightharpoonup> quote) \<Rightarrow> real \<Rightarrow> real \<Rightarrow> real \<Rightarrow> real \<Rightarrow> real" where
  "strike_put_gex put_map spot T r k =
     - black_scholes_gamma spot k T r (max (map_iv put_map k) 0.01)
       * of_int (map_oi put_map k) * SHARES_PER_CONTRACT * spot"

definition gex_row ::
  "(real \<rightharpoonup> quote) \<Rightarrow> (real \<rightharpoonup> quote) \<Rightarrow> real \<Rightarrow> real \<Rightarrow> real \<Rightarrow> real \<Rightarrow> exposure_row" where
  "gex_row call_map put_map spot T r k =
     (let c_oi = map_oi call_map k;
          p_oi = map_oi put_map k;
          call_iv = max (map_iv call_map k) 0.01;
          put_iv = max (map_iv put_map k) 0.01;
          c_gex = strike_call_gex call_map spot T r k;
          p_gex = strike_put_gex put_map spot T r k;
          c_delta = black_scholes_delta spot k T r call_iv ''call'';
          p_delta = black_scholes_delta spot k T r put_iv ''put'';
          call_charm_val = black_scholes_charm spot k T r call_iv ''call'';
          put_charm_val = black_scholes_charm spot k T r put_iv ''put'';
          call_vanna_val = black_scholes_vanna spot k T r call_iv;
          put_vanna_val = black_scholes_vanna spot k T r put_iv;
          n_gex = c_gex + p_gex
      in \<lparr>row_strike = k,
          call_oi = c_oi,
          put_oi = p_oi,
          call_gex = py_round 2 c_gex,
          put_gex = py_round 2 p_gex,
          net_gex = py_round 2 n_gex,
          call_delta = py_round 4 c_delta,
          put_delta = py_round 4 p_delta,
          net_dealer_delta =
            py_round 2 (- (c_delta * of_int c_oi + p_delta * of_int p_oi) * SHARES_PER_CONTRACT),
          call_charm = py_round 2 (call_charm_val * of_int c_oi * SHARES_PER_CONTRACT),
          put_charm = py_round 2 (put_charm_val * of_int p_oi * SHARES_PER_CONTRACT),
          net_charm =
            py_round 2 ((call_charm_val * of_int c_oi + put_charm_val * of_int p_oi) * SHARES_PER_CONTRACT),
          call_vanna = py_round 2 (call_vanna_val * of_int c_oi * SHARES_PER_CONTRACT),
          put_vanna = py_round 2 (put_vanna_val * of_int p_oi * SHARES_PER_CONTRACT),
          net_vanna =
            py_round 2 ((call_vanna_val * of_int c_oi + put_vanna_val * of_int p_oi) * SHARES_PER_CONTRACT)\<rparr>)"

text \<open>
  \<open>_find_gex_flip\<close>: the interpolated zero crossings of \<open>net_gex\<close> between adjacent rows,
  and among them the first one nearest to spot.
\<close>

fun crossings :: "exposure_row list \<Rightarrow> real list" where
  "crossings (r1 # r2 # rs) =
     (let g1 = net_gex r1; g2 = net_gex r2
      in (if g1 * g2 < 0
          then [py_round 2 (row_strike r1 + (row_strike r2 - row_strike r1) * \<bar>g1\<bar> / (\<bar>g1\<bar> + \<bar>g2\<bar>))]
          else [])
         @ crossings (r2 # rs))"
| "crossings rs = []"

definition find_gex_flip :: "exposure_row list \<Rightarrow> real \<Rightarrow> real option" where
  "find_gex_flip gex_by_strike spot =
     (if length gex_by_strike < 2 then None
      else case crossings gex_by_strike of
             [] \<Rightarrow> None
           | c # cs \<Rightarrow> Some (min_by (\<lambda>x. \<bar>x - spot\<bar>) c cs))"

text \<open>
  The dictionary returned by \<open>calculate_gex_profile\<close>, without its \<open>entropy\<close> entry (a
  descriptor computed from \<open>gex_by_strike\<close> by a function of its own, which no other entry
  depends on). The field \<open>gex_regime\<close> is the key \<open>regime\<close>.
\<close>

record gex_profile =
  gex_by_strike :: "exposure_row list"
  total_gex :: real
  total_call_gex :: real
  total_put_gex :: real
  flip_point :: "real option"
  abs_gamma_strike :: real
  gex_regime :: string
  total_charm :: real
  total_vanna :: real

definition time_to_expiry :: "int \<Rightarrow> real" where
  "time_to_expiry dte = max (of_int dte / 365.0) 0.001"

definition profile_strikes :: "quote list \<Rightarrow> quote list \<Rightarrow> real list" where
  "profile_strikes calls puts = sorted_list_of_set (leg_strikes calls \<union> leg_strikes puts)"

text \<open>
  The local variable \<open>total_gex\<close> before rounding: the sum of the running totals
  \<open>total_call_gex\<close> and \<open>total_put_gex\<close>.
\<close>

definition aggregate_gex :: "quote list \<Rightarrow> quote list \<Rightarrow> real \<Rightarrow> int \<Rightarrow> real \<Rightarrow> real" where
  "aggregate_gex calls puts spot dte r =
     (\<Sum>k \<leftarrow> profile_strikes calls puts. strike_call_gex (leg_map calls) spot (time_to_expiry dte) r k)
     + (\<Sum>k \<leftarrow> profile_strikes calls puts. strike_put_gex (leg_map puts) spot (time_to_expiry dte) r k)"

definition calculate_gex_profile ::
  "quote list \<Rightarrow> quote list \<Rightarrow> real \<Rightarrow> int \<Rightarrow> real \<Rightarrow> gex_profile" where
  "calculate_gex_profile calls puts spot dte risk_free_rate =
     (let T = time_to_expiry dte;
          call_map = leg_map calls;
          put_map = leg_map puts;
          strikes = profile_strikes calls puts;
          rows = map (gex_row call_map put_map spot T risk_free_rate) strikes;
          t_call_gex = (\<Sum>k \<leftarrow> strikes. strike_call_gex call_map spot T risk_free_rate k);
          t_put_gex = (\<Sum>k \<leftarrow> strikes. strike_put_gex put_map spot T risk_free_rate k);
          flip = find_gex_flip rows spot;
          abs_gamma = (case rows of [] \<Rightarrow> spot
                       | e # es \<Rightarrow> row_strike (max_by (\<lambda>x. \<bar>net_gex x\<bar>) e es));
          t_gex = t_call_gex + t_put_gex;
          reg = (case flip of
                   Some f \<Rightarrow> if spot \<ge> f then ''POSITIVE_GAMMA'' else ''NEGATIVE_GAMMA''
                 | None \<Rightarrow> if t_gex \<ge> 0 then ''POSITIVE_GAMMA'' else ''NEGATIVE_GAMMA'')
      in \<lparr>gex_by_strike = rows,
          total_gex = py_round 2 t_gex,
          total_call_gex = py_round 2 t_call_gex,
          total_put_gex = py_round 2 t_put_gex,
          flip_point = flip,
          abs_gamma_strike = abs_gamma,
          gex_regime = reg,
          total_charm = py_round 2 (\<Sum>s \<leftarrow> rows. net_charm s),
          total_vanna = py_round 2 (\<Sum>s \<leftarrow> rows. net_vanna s)\<rparr>)"

text \<open>
  The claim-side reading of "two adjacent strikes of the profile have opposite-signed
  \<open>net_gex\<close>", and the three exposure fields of each row.
\<close>

fun adjacent_sign_change :: "exposure_row list \<Rightarrow> bool" where
  "adjacent_sign_change (r1 # r2 # rs) =
     ((0 < net_gex r1 \<and> net_gex r2 < 0) \<or> (net_gex r1 < 0 \<and> 0 < net_gex r2)
      \<or> adjacent_sign_change (r2 # rs))"
| "adjacent_sign_change rs = False"

definition gex_triples :: "gex_profile \<Rightarrow> (real \<times> real \<times> real) list" where
  "gex_triples p = map (\<lambda>row. (call_gex row, put_gex row, net_gex row)) (gex_by_strike p)"

section \<open>Gamma channel (gamma_channel.py)\<close>

text \<open>
  The dictionary returned by \<open>extract_channel\<close>. Its keys \<open>floor\<close> and \<open>ceiling\<close> are the
  fields \<open>ch_floor\<close> and \<open>ch_ceiling\<close>. Only the keys \<open>strike\<close> and \<open>net_gex\<close> of the
  rows (the argument \<open>gex_by_strike\<close>) are read. Python's truth test \<open>if floor_strike\<close> is false for \<open>None\<close> and for \<open>0.0\<close>.
\<close>

record channel =
  ch_floor :: "real option"
  ch_ceiling :: "real option"
  floor_distance_pct :: "real option"
  ceiling_distance_pct :: "real option"
  width_pct :: "real option"
  channel_position :: "real option"
  floor_gex :: real
  ceiling_gex :: real
  degenerate :: bool

definition truthy :: "real option \<Rightarrow> bool" where
  "truthy x = (case x of None \<Rightarrow> False | Some v \<Rightarrow> v \<noteq> 0)"

definition empty_channel :: channel where
  "empty_channel =
     \<lparr>ch_floor = None, ch_ceiling = None, floor_distance_pct = None,
      ceiling_distance_pct = None, width_pct = None, channel_position = None,
      floor_gex = 0, ceiling_gex = 0, degenerate = False\<rparr>"

text \<open>
  The floor before widening: the highest strike below spot whose \<open>net_gex\<close> exceeds the
  threshold share of \<open>max_gex\<close>, else the strike of the first row of largest \<open>|net_gex|\<close>
  among those below spot above 10 percent of \<open>max_gex\<close>, else \<open>None\<close>.
\<close>

definition initial_floor :: "exposure_row list \<Rightarrow> real \<Rightarrow> real \<Rightarrow> real \<Rightarrow> real option" where
  "initial_floor rows spot max_gex floor_threshold =
     (let below_positive =
            filter (\<lambda>s. row_strike s < spot \<and> net_gex s > max_gex * floor_threshold) rows
      in if below_positive \<noteq> [] then Some (Max (set (map row_strike below_positive)))
         else case filter (\<lambda>s. row_strike s < spot \<and> \<bar>net_gex s\<bar> > max_gex * 0.10) rows of
                [] \<Rightarrow> None
              | e # es \<Rightarrow> Some (row_strike (max_by (\<lambda>s. \<bar>net_gex s\<bar>) e es)))"

text \<open>
  The ceiling before widening: the lowest strike above spot whose \<open>net_gex\<close> exceeds the
  threshold, else the strike of the first row of smallest \<open>|net_gex|\<close> among those above
  spot above 10 percent of \<open>max_gex\<close> (the source takes \<open>min\<close> here), else \<open>None\<close>.
\<close>

definition initial_ceiling :: "exposure_row list \<Rightarrow> real \<Rightarrow> real \<Rightarrow> real \<Rightarrow> real option" where
  "initial_ceiling rows spot max_gex ceiling_threshold =
     (let above_positive =
            filter (\<lambda>s. row_strike s > spot \<and> net_gex s > max_gex * ceiling_threshold) rows
      in if above_positive \<noteq> [] then Some (Min (set (map row_strike above_positive)))
         else case filter (\<lambda>s. row_strike s > spot \<and> \<bar>net_gex s\<bar> > max_gex * 0.10) rows of
                [] \<Rightarrow> None
              | e # es \<Rightarrow> Some (row_strike (min_by (\<lambda>s. \<bar>net_gex s\<bar>) e es)))"

text \<open>The two loops of \<open>_widen_channel\<close>, each leaving at its \<open>break\<close>.\<close>

fun widen_floor :: "real \<Rightarrow> real \<Rightarrow> real \<Rightarrow> exposure_row list \<Rightarrow> real" where
  "widen_floor spot target_half new_floor [] = new_floor"
| "widen_floor spot target_half new_floor (s # ss) =
     (if spot - row_strike s \<ge> target_half then row_strike s
      else widen_floor spot target_half (row_strike s) ss)"

fun widen_ceiling :: "real \<Rightarrow> real \<Rightarrow> real \<Rightarrow> exposure_row list \<Rightarrow> real" where
  "widen_ceiling spot target_half new_ceiling [] = new_ceiling"
| "widen_ceiling spot target_half new_ceiling (s # ss) =
     (if row_strike s - spot \<ge> target_half then row_strike s
      else widen_ceiling spot target_half (row_strike s) ss)"

definition widen_channel ::
  "exposure_row list \<Rightarrow> real \<Rightarrow> real \<Rightarrow> real \<Rightarrow> real \<Rightarrow> real \<Rightarrow> real \<times> real" where
  "widen_channel rows spot floor_s ceiling_s max_gex min_width_pct =
     (let target_half = (min_width_pct / 100) * spot / 2;
          candidates_below =
            sort_key (\<lambda>s. - row_strike s)
              (filter (\<lambda>s. row_strike s < floor_s \<and> \<bar>net_gex s\<bar> > max_gex * 0.05) rows);
          candidates_above =
            sort_key row_strike
              (filter (\<lambda>s. row_strike s > ceiling_s \<and> \<bar>net_gex s\<bar> > max_gex * 0.05) rows)
      in (widen_floor spot target_half floor_s candidates_below,
          widen_ceiling spot target_half ceiling_s candidates_above))"

text \<open>
  Floor and ceiling after the degenerate-band check, with the \<open>degenerate\<close> flag.
\<close>

definition channel_bounds ::
  "exposure_row list \<Rightarrow> real \<Rightarrow> real \<Rightarrow> real \<Rightarrow> real \<Rightarrow> real \<Rightarrow> real option \<times> real option \<times> bool" where
  "channel_bounds rows spot max_gex floor_threshold ceiling_threshold min_width_pct =
     (let floor_strike = initial_floor rows spot max_gex floor_threshold;
          ceiling_strike = initial_ceiling rows spot max_gex ceiling_threshold
      in case (floor_strike, ceiling_strike) of
           (Some f, Some c) \<Rightarrow>
             if f \<noteq> 0 \<and> c \<noteq> 0 \<and> 100 * (c - f) / spot < min_width_pct
             then (let (nf, nc) = widen_channel rows spot f c max_gex min_width_pct
                   in (Some nf, Some nc, True))
             else (floor_strike, ceiling_strike, False)
         | _ \<Rightarrow> (floor_strike, ceiling_strike, False))"

text \<open>The last row whose strike equals the given bound supplies \<open>floor_gex\<close> / \<open>ceiling_gex\<close>.\<close>

definition bound_gex :: "exposure_row list \<Rightarrow> real option \<Rightarrow> real" where
  "bound_gex rows b =
     fold (\<lambda>s g. if truthy b \<and> Some (row_strike s) = b then net_gex s else g) rows 0"

definition extract_channel ::
  "exposure_row list \<Rightarrow> real \<Rightarrow> real \<Rightarrow> real \<Rightarrow> real \<Rightarrow> channel" where
  "extract_channel rows spot floor_threshold ceiling_threshold min_width_pct =
     (if rows = [] \<or> spot \<le> 0 then empty_channel
      else
        let max_gex = Max (set (map (\<lambda>s. \<bar>net_gex s\<bar>) rows))
        in if max_gex \<le> 0 then empty_channel
           else
             let (floor_strike, ceiling_strike, degen) =
                   channel_bounds rows spot max_gex floor_threshold ceiling_threshold
                     min_width_pct;
                 both = truthy floor_strike \<and> truthy ceiling_strike;
                 f = get_default 0 floor_strike;
                 c = get_default 0 ceiling_strike
             in \<lparr>ch_floor = floor_strike,
                 ch_ceiling = ceiling_strike,
                 floor_distance_pct =
                   (if truthy floor_strike then Some (py_round 2 (100 * (spot - f) / spot)) else None),
                 ceiling_distance_pct =
                   (if truthy ceiling_strike then Some (py_round 2 (100 * (c - spot) / spot)) else None),
                 width_pct = (if both then Some (py_round 2 (100 * (c - f) / spot)) else None),
                 channel_position =
                   (if both \<and> c > f then Some (py_round 3 ((spot - f) / (c - f))) else None),
                 floor_gex = py_round 2 (bound_gex rows floor_strike),
                 ceiling_gex = py_round 2 (bound_gex rows ceiling_strike),
                 degenerate = degen\<rparr>)"

text \<open>
  A row given by its strike and \<open>net_gex\<close> alone (the tests of the channel pass such
  dictionaries); the fields \<open>extract_channel\<close> does not read are 0.
\<close>

definition strike_gex_row :: "real \<Rightarrow> real \<Rightarrow> exposure_row" where
  "strike_gex_row k g =
     \<lparr>row_strike = k, call_oi = 0, put_oi = 0, call_gex = 0, put_gex = 0, net_gex = g,
      call_delta = 0, put_delta = 0, net_dealer_delta = 0, call_charm = 0, put_charm = 0,
      net_charm = 0, call_vanna = 0, put_vanna = 0, net_vanna = 0\<rparr>"

section \<open>Price autocorrelation detector (acf_engine.py)\<close>

text \<open>
  \<open>pd.Series(prices).pct_change().dropna().values\<close> on a series of non-zero prices: the
  simple returns \<open>p[i+1] / p[i] - 1\<close> (the first entry of \<open>pct_change\<close>, which has no
  predecessor, is the one \<open>dropna\<close> removes). \<open>np.mean\<close> is the arithmetic mean and
  \<open>np.var\<close> the population variance. An entry of the result is \<open>None\<close> where the code
  stores NaN.
\<close>

definition pct_change :: "real list \<Rightarrow> real list" where
  "pct_change prices = map (\<lambda>(p, q). q / p - 1) (zip prices (tl prices))"

definition np_mean :: "real list \<Rightarrow> real" where
  "np_mean xs = sum_list xs / of_nat (length xs)"

definition np_var :: "real list \<Rightarrow> real" where
  "np_var xs = np_mean (map (\<lambda>x. (x - np_mean xs)\<^sup>2) xs)"

text \<open>The body of the loop over lags: the value stored in \<open>acf[lag - 1]\<close>.\<close>

definition lag_acf :: "real list \<Rightarrow> nat \<Rightarrow> real" where
  "lag_acf returns lag =
     (let n = length returns; mean = np_mean returns; var = np_var returns
      in np_mean (map2 (\<lambda>x y. (x - mean) * (y - mean)) (take (n - lag) returns) (drop lag returns))
         / var)"

definition compute_daily_acf :: "real list \<Rightarrow> nat \<Rightarrow> real option list" where
  "compute_daily_acf prices max_lag =
     (let returns = pct_change prices
      in if length returns < max_lag + 10 then replicate max_lag None
         else if np_var returns < 1 / 10 ^ 12 then replicate max_lag None
         else map (\<lambda>lag. Some (lag_acf returns lag)) [1..<max_lag + 1])"

text \<open>
  The price series the autocorrelation properties speak about: a constant series, and a
  series that alternates exactly between two values.
\<close>

definition constant_prices :: "real \<Rightarrow> nat \<Rightarrow> real list" where
  "constant_prices c n = replicate n c"

definition alternating_prices :: "real \<Rightarrow> real \<Rightarrow> nat \<Rightarrow> real list" where
  "alternating_prices a b n = map (\<lambda>i. if even i then a else b) [0..<n]"

text \<open>
  A strictly increasing series of 21 prices whose returns alternate between 100 percent and
  50 percent.
\<close>

definition zigzag_rise :: "real list" where
  "zigzag_rise =
     [1, 2, 3, 6, 9, 18, 27, 54, 81, 162, 243, 486, 729, 1458, 2187, 4374, 6561, 13122,
      19683, 39366, 59049]"

section \<open>Rounding lemmas\<close>

lemma round_half_even_lower: "x - 1/2 \<le> of_int (round_half_even x)"
  unfolding round_half_even_def Let_def by (auto; linarith)

lemma round_half_even_upper: "of_int (round_half_even x) \<le> x + 1/2"
  unfolding round_half_even_def Let_def by (auto; linarith)

lemma round_half_even_of_int [simp]: "round_half_even (of_int k) = k"
  unfolding round_half_even_def Let_def by simp

lemma round_half_even_zero [simp]: "round_half_even 0 = 0"
  using round_half_even_of_int [of 0] by simp

lemma round_half_even_mono:
  assumes "x \<le> y"
  shows "round_half_even x \<le> round_half_even y"
proof (rule ccontr)
  assume "\<not> round_half_even x \<le> round_half_even y"
  then have lt: "round_half_even y + 1 \<le> round_half_even x" by simp
  have fl: "\<lfloor>x\<rfloor> \<le> \<lfloor>y\<rfloor>" using assms by (rule floor_mono)
  have rx: "round_half_even x = \<lfloor>x\<rfloor> \<or> round_half_even x = \<lfloor>x\<rfloor> + 1"
    unfolding round_half_even_def Let_def by auto
  have ry: "round_half_even y = \<lfloor>y\<rfloor> \<or> round_half_even y = \<lfloor>y\<rfloor> + 1"
    unfolding round_half_even_def Let_def by auto
  from lt fl rx ry have eq: "\<lfloor>x\<rfloor> = \<lfloor>y\<rfloor>" and ux: "round_half_even x = \<lfloor>x\<rfloor> + 1"
    and dy: "round_half_even y = \<lfloor>y\<rfloor>" by auto
  from ux have "1/2 \<le> x - of_int \<lfloor>x\<rfloor>"
    unfolding round_half_even_def Let_def by (auto split: if_splits)
  moreover from dy have "y - of_int \<lfloor>y\<rfloor> \<le> 1/2"
    unfolding round_half_even_def Let_def by (auto split: if_splits)
  ultimately have "x = y" using assms eq by simp
  with lt show False by simp
qed

lemma py_round_lower: "x - 1 / (2 * 10 ^ n) \<le> py_round n x"
proof -
  have "x * 10 ^ n - 1/2 \<le> of_int (round_half_even (x * 10 ^ n))"
    by (rule round_half_even_lower)
  then have "(x * 10 ^ n - 1/2) / 10 ^ n \<le> of_int (round_half_even (x * 10 ^ n)) / 10 ^ n"
    by (simp add: divide_right_mono)
  then show ?thesis by (simp add: py_round_def field_simps)
qed

lemma py_round_upper: "py_round n x \<le> x + 1 / (2 * 10 ^ n)"
proof -
  have "of_int (round_half_even (x * 10 ^ n)) \<le> x * 10 ^ n + 1/2"
    by (rule round_half_even_upper)
  then have "of_int (round_half_even (x * 10 ^ n)) / 10 ^ n \<le> (x * 10 ^ n + 1/2) / 10 ^ n"
    by (simp add: divide_right_mono)
  then show ?thesis by (simp add: py_round_def field_simps)
qed

lemma py_round_mono: "x \<le> y \<Longrightarrow> py_round n x \<le> py_round n y"
  unfolding py_round_def
  by (intro divide_right_mono iffD2 [OF of_int_le_iff] round_half_even_mono mult_right_mono) simp_all

lemma py_round_zero [simp]: "py_round n 0 = 0"
  by (simp add: py_round_def)

lemma py_round_nonneg: "0 \<le> x \<Longrightarrow> 0 \<le> py_round n x"
  using py_round_mono [of 0 x n] by simp

lemma py_round_nonpos: "x \<le> 0 \<Longrightarrow> py_round n x \<le> 0"
  using py_round_mono [of x 0 n] by simp

lemma py_round_of_int [simp]: "py_round n (of_int k) = of_int k"
proof -
  have "of_int k * (10::real) ^ n = of_int (k * 10 ^ n)" by simp
  then have "round_half_even (of_int k * 10 ^ n) = k * 10 ^ n"
    by (simp only: round_half_even_of_int)
  then show ?thesis by (simp add: py_round_def)
qed

section \<open>Thesis decision tree: the CRITICAL/TRANSITIONAL override\<close>

text \<open>
  C1. When the GEX-entropy regime is CRITICAL and the flow (Reynolds) regime is
  TRANSITIONAL, the effective ratio fed into the decision tree is at least 1.05, and the
  thesis is MOMENTUM_BREAKOUT when the momentum predicate holds and MOMENTUM_EARLY when it
  does not; no other thesis is reachable.
\<close>

theorem critical_transitional_forces_momentum:
  assumes "entropy_regime t = ''CRITICAL''"
    and "get_default ''LAMINAR'' (re_regime reynolds) = ''TRANSITIONAL''"
  shows "1.05 \<le> effective_re reynolds t
         \<and> classify_thesis acf reynolds t
             = (if acf_net_momentum acf then MOMENTUM_BREAKOUT else MOMENTUM_EARLY)"
proof -
  have eff: "1.05 \<le> effective_re reynolds t"
    using assms by (simp add: effective_re_def)
  then have "effective_re reynolds t > 1.0" by simp
  then show ?thesis using eff by (simp add: classify_thesis_def Let_def)
qed

theorem critical_transitional_forces_momentum_witness:
  "classify_thesis
     \<lparr>acf_regime = Some ''LONG_GAMMA'', mean_acf1 = Some (-0.2), pct_amplified = Some 5,
      pct_dampened = Some 90, sei_regime = None\<rparr>
     \<lparr>reynolds_number = Some 0.8, re_regime = Some ''TRANSITIONAL''\<rparr>
     (Some \<lparr>beta_60d = Some 1.2, gex_entropy_regime = Some ''CRITICAL''\<rparr>)
   = MOMENTUM_EARLY"
  using critical_transitional_forces_momentum
    [of "Some \<lparr>beta_60d = Some 1.2, gex_entropy_regime = Some ''CRITICAL''\<rparr>"
        "\<lparr>reynolds_number = Some 0.8, re_regime = Some ''TRANSITIONAL''\<rparr>"
        "\<lparr>acf_regime = Some ''LONG_GAMMA'', mean_acf1 = Some (-0.2), pct_amplified = Some 5,
          pct_dampened = Some 90, sei_regime = None\<rparr>"]
  by (simp add: entropy_regime_def tech_or_empty_def get_default_def acf_net_momentum_def)

section \<open>Kelly sizing: zero and clamp\<close>

text \<open>
  C7. The Kelly sizing function returns 0 percent whenever the edge or the win probability
  is not positive, and for positive edge and positive win probability the returned
  percentage lies in the closed interval from 0.25 to 5.
\<close>

theorem kelly_size_zero_or_clamped:
  "(edge_pct \<le> 0 \<or> win_prob \<le> 0 \<longrightarrow> fst (kelly_size edge_pct win_prob iv vrp) = 0)
   \<and> (0 < edge_pct \<and> 0 < win_prob \<longrightarrow>
        0.25 \<le> fst (kelly_size edge_pct win_prob iv vrp)
        \<and> fst (kelly_size edge_pct win_prob iv vrp) \<le> 5)"
  by (auto simp: kelly_size_def Let_def)

theorem kelly_size_zero_or_clamped_witness:
  "fst (kelly_size 0 60 1.0 ''FAIR'') = 0
   \<and> 0.25 \<le> fst (kelly_size 10 60 1.0 ''FAIR'') \<and> fst (kelly_size 10 60 1.0 ''FAIR'') \<le> 5"
  using kelly_size_zero_or_clamped [of 0 60 "1.0" "''FAIR''"]
    kelly_size_zero_or_clamped [of 10 60 "1.0" "''FAIR''"]
  by simp

section \<open>Kelly sizing: expensive against fair volatility\<close>

lemma kelly_half_nonneg: "0 \<le> kelly_half e w"
  by (simp add: kelly_half_def Let_def)

lemma regime_scale_expensive: "iv > 1.5 \<Longrightarrow> regime_scale iv vrp = 0.7"
  by (simp add: regime_scale_def)

lemma py_round_1_grid: "\<exists>k::int. py_round 1 x = of_int k / 10"
  by (auto simp: py_round_def)

text \<open>
  C2 as stated (a context with ratio above 1.5 gives a strictly smaller size than a fair
  one) fails where the clamp takes over: with edge 10 and win probability 60 the half-Kelly
  fraction is 0 and both contexts return the floor 0.25.
\<close>

theorem kelly_expensive_not_strict_counterexample:
  "regime_scale 1.8 ''FAIR'' = 0.7 \<and> regime_scale 1.0 ''FAIR'' = 1.0
   \<and> \<not> fst (kelly_size 10 60 1.8 ''FAIR'') < fst (kelly_size 10 60 1.0 ''FAIR'')"
  by (simp add: regime_scale_def kelly_size_def kelly_half_def Let_def)

text \<open>
  C2, amended. For equal positive edge, equal positive win probability and equal VRP
  context, a context with ratio above 1.5 (multiplier 0.7) never gives a larger size than a
  fair context (multiplier 1.0), and gives a strictly smaller one whenever the fair size
  lies strictly between the floor 0.25 and the cap 5.
\<close>

theorem kelly_expensive_le_fair:
  assumes "0 < edge_pct" and "0 < win_prob" and "1.5 < iv_exp"
    and "regime_scale iv_fair vrp = 1.0"
  shows "fst (kelly_size edge_pct win_prob iv_exp vrp) \<le> fst (kelly_size edge_pct win_prob iv_fair vrp)
     \<and> (0.25 < fst (kelly_size edge_pct win_prob iv_fair vrp)
          \<and> fst (kelly_size edge_pct win_prob iv_fair vrp) < 5
        \<longrightarrow> fst (kelly_size edge_pct win_prob iv_exp vrp) < fst (kelly_size edge_pct win_prob iv_fair vrp))"
proof -
  define h where "h = kelly_half edge_pct win_prob"
  define re where "re = py_round 1 (h * 0.7 * 100)"
  define rf where "rf = py_round 1 (h * 1.0 * 100)"
  have h0: "0 \<le> h" unfolding h_def by (rule kelly_half_nonneg)
  have ke: "fst (kelly_size edge_pct win_prob iv_exp vrp) = max 0.25 (min 5.0 re)"
    using assms(1,2,3) by (simp add: kelly_size_def Let_def regime_scale_expensive h_def re_def)
  have kf: "fst (kelly_size edge_pct win_prob iv_fair vrp) = max 0.25 (min 5.0 rf)"
    using assms(1,2,4) by (simp add: kelly_size_def Let_def h_def rf_def)
  have "h * 0.7 * 100 \<le> h * 1.0 * 100" using h0 by simp
  then have le: "re \<le> rf" unfolding re_def rf_def by (rule py_round_mono)
  have weak: "max 0.25 (min 5.0 re) \<le> max 0.25 (min 5.0 rf)" using le by simp
  have strict: "max 0.25 (min 5.0 re) < max 0.25 (min 5.0 rf)"
    if in1: "0.25 < max 0.25 (min 5.0 rf)" and in2: "max 0.25 (min 5.0 rf) < 5"
  proof (rule ccontr)
    assume "\<not> max 0.25 (min 5.0 re) < max 0.25 (min 5.0 rf)"
    then have ge: "max 0.25 (min 5.0 rf) \<le> max 0.25 (min 5.0 re)" by linarith
    from in1 in2 have rf1: "0.25 < rf" and rf2: "rf < 5" by linarith+
    with ge have "rf \<le> re" by linarith
    obtain k :: int where k: "rf = of_int k / 10"
      using py_round_1_grid [of "h * 1.0 * 100"] unfolding rf_def by blast
    from rf1 k have "25 < real_of_int k * 10" by simp
    then have "25 < k * 10" by linarith
    then have "3 \<le> k" by simp
    then have "(3::real) \<le> of_int k" by linarith
    with k have rf3: "0.3 \<le> rf" by simp
    have up: "re \<le> h * 0.7 * 100 + 1 / (2 * 10 ^ 1)" unfolding re_def by (rule py_round_upper)
    have lo: "h * 1.0 * 100 - 1 / (2 * 10 ^ 1) \<le> rf" unfolding rf_def by (rule py_round_lower)
    from up lo \<open>rf \<le> re\<close> rf3 show False by simp
  qed
  show ?thesis unfolding ke kf using weak strict by blast
qed

theorem kelly_expensive_le_fair_witness:
  "fst (kelly_size 10 68 1.8 ''FAIR'') < fst (kelly_size 10 68 1.0 ''FAIR'')"
proof -
  have fair: "regime_scale 1.0 ''FAIR'' = 1.0" by (simp add: regime_scale_def)
  have v: "fst (kelly_size 10 68 1.0 ''FAIR'') = 2"
    by (simp add: kelly_size_def kelly_half_def Let_def regime_scale_def py_round_def round_half_even_def)
  show ?thesis
    using kelly_expensive_le_fair [of 10 68 "1.8" "1.0" "''FAIR''"] fair v by simp
qed

section \<open>First-extremum selection\<close>

lemma min_by_in_set: "min_by f m xs \<in> set (m # xs)"
  by (induction xs arbitrary: m) (auto split: if_splits)

lemma min_by_start: "min_by f m xs = m \<or> f (min_by f m xs) < f m"
proof (induction xs arbitrary: m)
  case Nil
  show ?case by simp
next
  case (Cons a xs)
  show ?case
  proof (cases "f a < f m")
    case True
    with Cons.IH [of a] show ?thesis by auto
  next
    case False
    with Cons.IH [of m] show ?thesis by auto
  qed
qed

lemma min_by_le_start: "f (min_by f m xs) \<le> f m"
  using min_by_start [of f m xs] by auto

lemma min_by_least: "x \<in> set (m # xs) \<Longrightarrow> f (min_by f m xs) \<le> f x"
proof (induction xs arbitrary: m)
  case Nil
  then show ?case by simp
next
  case (Cons a xs)
  show ?case
  proof (cases "f a < f m")
    case True
    have "f (min_by f a xs) \<le> f a" by (rule min_by_le_start)
    with Cons.prems Cons.IH [of a] True show ?thesis by auto
  next
    case False
    have "f (min_by f m xs) \<le> f m" by (rule min_by_le_start)
    with Cons.prems Cons.IH [of m] False show ?thesis by auto
  qed
qed

lemma min_by_first:
  fixes g :: "'a \<Rightarrow> real"
  assumes "\<forall>y \<in> set xs. g m \<le> g y" and "sorted_wrt (\<lambda>a b. g a \<le> g b) xs"
    and "x \<in> set (m # xs)" and "f x = f (min_by f m xs)"
  shows "g (min_by f m xs) \<le> g x"
  using assms
proof (induction xs arbitrary: m)
  case Nil
  then show ?case by simp
next
  case (Cons a xs)
  show ?case
  proof (cases "f a < f m")
    case True
    have r: "min_by f m (a # xs) = min_by f a xs" using True by simp
    have le: "f (min_by f a xs) \<le> f a" by (rule min_by_le_start)
    have "x \<noteq> m" using Cons.prems(4) True le unfolding r by auto
    then have x: "x \<in> set (a # xs)" using Cons.prems(3) by simp
    have "g (min_by f a xs) \<le> g x"
      using Cons.IH [of a] Cons.prems(2,4) x unfolding r by simp
    then show ?thesis unfolding r .
  next
    case False
    have r: "min_by f m (a # xs) = min_by f m xs" using False by simp
    have s: "\<forall>y \<in> set xs. g m \<le> g y" using Cons.prems(1) by simp
    show ?thesis
    proof (cases "x = a")
      case True
      have "f (min_by f m xs) \<le> f m" by (rule min_by_le_start)
      with Cons.prems(4) False True have "\<not> f (min_by f m xs) < f m" unfolding r by simp
      with min_by_start [of f m xs] have "min_by f m xs = m" by blast
      then show ?thesis unfolding r using Cons.prems(1) True by simp
    next
      case xa: False
      then have x: "x \<in> set (m # xs)" using Cons.prems(3) by auto
      have "g (min_by f m xs) \<le> g x"
        using Cons.IH [of m] s Cons.prems(2,4) x unfolding r by simp
      then show ?thesis unfolding r .
    qed
  qed
qed

section \<open>Max pain: characterisation of the result\<close>

lemma leg_data_eq:
  "leg_data cs =
     (if \<forall>c \<in> set cs. strike c \<noteq> None
      then Inr (map (\<lambda>c. (the (strike c), get_default 0 (openInterest c))) cs)
      else Inl KeyError)"
  by (induction cs) (auto split: option.splits sum.splits)

lemma sum_list_map_mset:
  fixes h :: "'a \<Rightarrow> real"
  assumes "mset xs = mset ys"
  shows "sum_list (map h xs) = sum_list (map h ys)"
proof -
  have "sum_list (map h xs) = sum_mset (image_mset h (mset xs))"
    by (metis mset_map sum_mset_sum_list)
  also have "\<dots> = sum_mset (image_mset h (mset ys))" using assms by simp
  also have "\<dots> = sum_list (map h ys)" by (metis mset_map sum_mset_sum_list)
  finally show ?thesis .
qed

lemma total_pain_at_mset:
  assumes "mset cd' = mset cd" and "mset pd' = mset pd"
  shows "total_pain_at cd' pd' s = total_pain_at cd pd s"
  unfolding total_pain_at_def
  using sum_list_map_mset [OF assms(1)] sum_list_map_mset [OF assms(2)] by simp

lemma calculate_max_pain_perm:
  assumes c: "mset calls' = mset calls" and p: "mset puts' = mset puts"
  shows "calculate_max_pain calls' puts' = calculate_max_pain calls puts"
proof -
  let ?d = "map (\<lambda>c. (the (strike c), get_default 0 (openInterest c)))"
  have sc: "set calls' = set calls" using c by (rule mset_eq_setD)
  have sp: "set puts' = set puts" using p by (rule mset_eq_setD)
  have mc: "mset (?d calls') = mset (?d calls)" using c by simp
  have mp: "mset (?d puts') = mset (?d puts)" using p by simp
  have tp: "total_pain_at (?d calls') (?d puts') = total_pain_at (?d calls) (?d puts)"
    using total_pain_at_mset [OF mc mp] by (intro ext)
  have lc: "leg_data calls' = (case leg_data calls of Inl e \<Rightarrow> Inl e | Inr r \<Rightarrow> Inr (?d calls'))"
    by (simp add: leg_data_eq sc)
  have lp: "leg_data puts' = (case leg_data puts of Inl e \<Rightarrow> Inl e | Inr r \<Rightarrow> Inr (?d puts'))"
    by (simp add: leg_data_eq sp)
  have lc': "leg_data calls = Inr r \<Longrightarrow> r = ?d calls" for r
    by (simp add: leg_data_eq split: if_splits)
  have lp': "leg_data puts = Inr r \<Longrightarrow> r = ?d puts" for r
    by (simp add: leg_data_eq split: if_splits)
  show ?thesis
  proof (cases "leg_data calls")
    case (Inl e)
    then show ?thesis by (simp add: calculate_max_pain_def lc)
  next
    case cr: (Inr r)
    show ?thesis
    proof (cases "leg_data puts")
      case (Inl e)
      then show ?thesis by (simp add: calculate_max_pain_def lc lp cr)
    next
      case pr: (Inr r')
      have r: "r = ?d calls" "r' = ?d puts" using lc' [OF cr] lp' [OF pr] by simp_all
      have "calculate_max_pain calls' puts'
        = (let strikes = sorted_list_of_set (set (map fst (?d calls')) \<union> set (map fst (?d puts')));
               entries = map (\<lambda>test_price.
                          \<lparr>pain_strike = test_price,
                           total_pain = py_round 2 (total_pain_at (?d calls') (?d puts') test_price)\<rparr>)
                        strikes
          in (case entries of
                [] \<Rightarrow> Inr \<lparr>max_pain = 0, max_pain_value = None, pain_by_strike = []\<rparr>
              | e # es \<Rightarrow>
                  let max_pain_entry = min_by total_pain e es
                  in Inr \<lparr>max_pain = pain_strike max_pain_entry,
                          max_pain_value = Some (total_pain max_pain_entry),
                          pain_by_strike = entries\<rparr>))"
        unfolding calculate_max_pain_def lc lp cr pr by (simp only: sum.case)
      also have "set (map fst (?d calls')) = set (map fst (?d calls))" by (simp add: sc)
      also have "set (map fst (?d puts')) = set (map fst (?d puts))" by (simp add: sp)
      also note tp
      finally show ?thesis
        unfolding calculate_max_pain_def cr pr r by (simp only: sum.case)
    qed
  qed
qed

lemma spec_total_pain_eq:
  assumes "\<forall>c \<in> set calls \<union> set puts. strike c \<noteq> None"
  shows "spec_total_pain calls puts s
    = total_pain_at (map (\<lambda>c. (the (strike c), get_default 0 (openInterest c))) calls)
        (map (\<lambda>c. (the (strike c), get_default 0 (openInterest c))) puts) s"
proof -
  have a: "(\<forall>c \<in> set cs. strike c \<noteq> None) \<Longrightarrow>
    (\<Sum>c \<leftarrow> cs. case strike c of None \<Rightarrow> 0
        | Some k \<Rightarrow> max 0 (s - k) * of_int (get_default 0 (openInterest c)) * 100)
    = (\<Sum>(k, oi) \<leftarrow> map (\<lambda>c. (the (strike c), get_default 0 (openInterest c))) cs.
         if s > k then (s - k) * of_int oi * 100 else 0)" for cs
    by (induction cs) (auto simp: max_def)
  have b: "(\<forall>c \<in> set cs. strike c \<noteq> None) \<Longrightarrow>
    (\<Sum>c \<leftarrow> cs. case strike c of None \<Rightarrow> 0
        | Some k \<Rightarrow> max 0 (k - s) * of_int (get_default 0 (openInterest c)) * 100)
    = (\<Sum>(k, oi) \<leftarrow> map (\<lambda>c. (the (strike c), get_default 0 (openInterest c))) cs.
         if s < k then (k - s) * of_int oi * 100 else 0)" for cs
    by (induction cs) (auto simp: max_def)
  show ?thesis unfolding spec_total_pain_def total_pain_at_def
    using a [of calls] b [of puts] assms by simp
qed

lemma chain_strikes_eq:
  assumes "\<forall>c \<in> set calls \<union> set puts. strike c \<noteq> None"
  shows "chain_strikes calls puts
    = set (map fst (map (\<lambda>c. (the (strike c), get_default 0 (openInterest c))) calls))
      \<union> set (map fst (map (\<lambda>c. (the (strike c), get_default 0 (openInterest c))) puts))"
  using assms unfolding chain_strikes_def by (auto simp: image_iff) force+

lemma calculate_max_pain_nonempty:
  assumes al: "\<forall>c \<in> set calls \<union> set puts. strike c \<noteq> None"
    and ne: "calls \<noteq> [] \<or> puts \<noteq> []"
  shows "\<exists>m \<in> chain_strikes calls puts.
     calculate_max_pain calls puts
       = Inr \<lparr>max_pain = m, max_pain_value = Some (stored_pain calls puts m),
              pain_by_strike = map (\<lambda>s. \<lparr>pain_strike = s, total_pain = stored_pain calls puts s\<rparr>)
                                 (sorted_list_of_set (chain_strikes calls puts))\<rparr>
     \<and> (\<forall>s \<in> chain_strikes calls puts.
           stored_pain calls puts m \<le> stored_pain calls puts s
           \<and> (stored_pain calls puts s = stored_pain calls puts m \<longrightarrow> m \<le> s))"
proof -
  let ?d = "map (\<lambda>c. (the (strike c), get_default 0 (openInterest c)))"
  let ?S = "chain_strikes calls puts"
  let ?E = "\<lambda>s. \<lparr>pain_strike = s, total_pain = stored_pain calls puts s\<rparr>"
  let ?strikes = "sorted_list_of_set ?S"
  have S: "?S = set (map fst (?d calls)) \<union> set (map fst (?d puts))"
    using al by (rule chain_strikes_eq)
  have fin: "finite ?S" unfolding S by simp
  have "?S \<noteq> {}" using ne al unfolding S by (cases calls; cases puts) auto
  then have sne: "?strikes \<noteq> []" using fin by simp
  then obtain s0 ss where ss: "?strikes = s0 # ss" by (cases ?strikes) auto
  have ent: "map (\<lambda>test_price. \<lparr>pain_strike = test_price,
                 total_pain = py_round 2 (total_pain_at (?d calls) (?d puts) test_price)\<rparr>) ?strikes
             = map ?E ?strikes"
    unfolding stored_pain_def spec_total_pain_eq [OF al] ..
  define r where "r = min_by total_pain (?E s0) (map ?E ss)"
  have l1: "leg_data calls = Inr (?d calls)" using al by (simp add: leg_data_eq)
  have l2: "leg_data puts = Inr (?d puts)" using al by (simp add: leg_data_eq)
  have calc: "calculate_max_pain calls puts
     = Inr \<lparr>max_pain = pain_strike r, max_pain_value = Some (total_pain r),
            pain_by_strike = map ?E ?strikes\<rparr>"
    unfolding calculate_max_pain_def l1 l2 r_def
    by (simp only: sum.case S [symmetric] Let_def ent) (simp only: ss list.map list.case)
  have rin: "r \<in> set (map ?E ?strikes)"
    unfolding r_def ss using min_by_in_set [of total_pain "?E s0" "map ?E ss"] by simp
  then obtain m where m: "m \<in> set ?strikes" and rm: "r = ?E m" by auto
  have mS: "m \<in> ?S" using m fin by simp
  have srt: "sorted ?strikes" by simp
  have least: "stored_pain calls puts m \<le> stored_pain calls puts s" if "s \<in> ?S" for s
  proof -
    have "?E s \<in> set (map ?E ?strikes)" using that fin by simp
    then have "?E s \<in> set (?E s0 # map ?E ss)" unfolding ss by simp
    from min_by_least [OF this, of total_pain] show ?thesis
      unfolding r_def [symmetric] rm by simp
  qed
  have first: "m \<le> s" if "s \<in> ?S" and "stored_pain calls puts s = stored_pain calls puts m" for s
  proof -
    have "?E s \<in> set (map ?E ?strikes)" using that(1) fin by simp
    then have x: "?E s \<in> set (?E s0 # map ?E ss)" unfolding ss by simp
    have a1: "\<forall>y \<in> set (map ?E ss). pain_strike (?E s0) \<le> pain_strike y"
      using srt unfolding ss by auto
    have a2: "sorted_wrt (\<lambda>a b. pain_strike a \<le> pain_strike b) (map ?E ss)"
      using srt unfolding ss by (simp add: sorted_wrt_map)
    have a4: "total_pain (?E s) = total_pain (min_by total_pain (?E s0) (map ?E ss))"
      unfolding r_def [symmetric] rm using that(2) by simp
    from min_by_first [OF a1 a2 x a4] show ?thesis
      unfolding r_def [symmetric] rm by simp
  qed
  show ?thesis
    using mS calc least first unfolding rm by (intro bexI [of _ m]) auto
qed

section \<open>Max pain: order invariance, single strike, lowest minimiser\<close>

lemma spec_total_pain_single:
  assumes "\<forall>c \<in> set calls \<union> set puts. strike c = Some k"
  shows "spec_total_pain calls puts k = 0"
proof -
  have a: "(\<forall>c \<in> set cs. strike c = Some k) \<Longrightarrow>
    (\<Sum>c \<leftarrow> cs. case strike c of None \<Rightarrow> 0
        | Some k' \<Rightarrow> max 0 (k - k') * of_int (get_default 0 (openInterest c)) * 100) = (0::real)" for cs
    by (induction cs) auto
  have b: "(\<forall>c \<in> set cs. strike c = Some k) \<Longrightarrow>
    (\<Sum>c \<leftarrow> cs. case strike c of None \<Rightarrow> 0
        | Some k' \<Rightarrow> max 0 (k' - k) * of_int (get_default 0 (openInterest c)) * 100) = (0::real)" for cs
    by (induction cs) auto
  show ?thesis unfolding spec_total_pain_def using a [of calls] b [of puts] assms by simp
qed

text \<open>
  C8. The result of \<open>calculate_max_pain\<close> (hence its \<open>max_pain\<close> and \<open>max_pain_value\<close>) is
  the same for every permutation of the calls list and of the puts list; and for a
  non-empty chain whose calls and puts all carry the single strike \<open>k\<close>, \<open>max_pain\<close> is
  \<open>k\<close> and \<open>max_pain_value\<close> is 0.
\<close>

theorem max_pain_order_invariant_single_strike:
  "(mset calls' = mset calls \<and> mset puts' = mset puts
      \<longrightarrow> calculate_max_pain calls' puts' = calculate_max_pain calls puts)
   \<and> ((calls \<noteq> [] \<or> puts \<noteq> []) \<and> (\<forall>c \<in> set calls \<union> set puts. strike c = Some k)
      \<longrightarrow> (\<exists>res. calculate_max_pain calls puts = Inr res
              \<and> max_pain res = k \<and> max_pain_value res = Some 0))"
proof (intro conjI impI)
  assume "mset calls' = mset calls \<and> mset puts' = mset puts"
  then show "calculate_max_pain calls' puts' = calculate_max_pain calls puts"
    using calculate_max_pain_perm by blast
next
  assume h: "(calls \<noteq> [] \<or> puts \<noteq> []) \<and> (\<forall>c \<in> set calls \<union> set puts. strike c = Some k)"
  then have al: "\<forall>c \<in> set calls \<union> set puts. strike c \<noteq> None" by simp
  from h have ne: "calls \<noteq> [] \<or> puts \<noteq> []" by simp
  from h have sub: "chain_strikes calls puts \<subseteq> {k}" unfolding chain_strikes_def by auto
  have z: "stored_pain calls puts k = 0"
    unfolding stored_pain_def using spec_total_pain_single [of calls puts k] h by simp
  from calculate_max_pain_nonempty [OF al ne] obtain m where
    m: "m \<in> chain_strikes calls puts"
    and c: "calculate_max_pain calls puts
       = Inr \<lparr>max_pain = m, max_pain_value = Some (stored_pain calls puts m),
              pain_by_strike = map (\<lambda>s. \<lparr>pain_strike = s, total_pain = stored_pain calls puts s\<rparr>)
                                 (sorted_list_of_set (chain_strikes calls puts))\<rparr>"
    by blast
  from m sub have "m = k" by auto
  with c z show "\<exists>res. calculate_max_pain calls puts = Inr res
              \<and> max_pain res = k \<and> max_pain_value res = Some 0" by simp
qed

theorem max_pain_order_invariant_single_strike_witness:
  "calculate_max_pain
      [\<lparr>strike = Some 100, openInterest = Some 200, impliedVolatility = Some 0.3\<rparr>,
       \<lparr>strike = Some 95, openInterest = Some 100, impliedVolatility = Some 0.3\<rparr>]
      [\<lparr>strike = Some 100, openInterest = Some 100, impliedVolatility = Some 0.3\<rparr>,
       \<lparr>strike = Some 95, openInterest = Some 200, impliedVolatility = Some 0.3\<rparr>]
    = calculate_max_pain
      [\<lparr>strike = Some 95, openInterest = Some 100, impliedVolatility = Some 0.3\<rparr>,
       \<lparr>strike = Some 100, openInterest = Some 200, impliedVolatility = Some 0.3\<rparr>]
      [\<lparr>strike = Some 95, openInterest = Some 200, impliedVolatility = Some 0.3\<rparr>,
       \<lparr>strike = Some 100, openInterest = Some 100, impliedVolatility = Some 0.3\<rparr>]
   \<and> (\<exists>res. calculate_max_pain
        [\<lparr>strike = Some 100, openInterest = Some 500, impliedVolatility = Some 0.3\<rparr>]
        [\<lparr>strike = Some 100, openInterest = Some 500, impliedVolatility = Some 0.3\<rparr>] = Inr res
        \<and> max_pain res = 100 \<and> max_pain_value res = Some 0)"
  using max_pain_order_invariant_single_strike
      [where calls' = "[\<lparr>strike = Some 100, openInterest = Some 200, impliedVolatility = Some 0.3\<rparr>,
       \<lparr>strike = Some 95, openInterest = Some 100, impliedVolatility = Some 0.3\<rparr>]"
       and puts' = "[\<lparr>strike = Some 100, openInterest = Some 100, impliedVolatility = Some 0.3\<rparr>,
       \<lparr>strike = Some 95, openInterest = Some 200, impliedVolatility = Some 0.3\<rparr>]"
       and calls = "[\<lparr>strike = Some 95, openInterest = Some 100, impliedVolatility = Some 0.3\<rparr>,
       \<lparr>strike = Some 100, openInterest = Some 200, impliedVolatility = Some 0.3\<rparr>]"
       and puts = "[\<lparr>strike = Some 95, openInterest = Some 200, impliedVolatility = Some 0.3\<rparr>,
       \<lparr>strike = Some 100, openInterest = Some 100, impliedVolatility = Some 0.3\<rparr>]"]
    max_pain_order_invariant_single_strike
      [where calls = "[\<lparr>strike = Some 100, openInterest = Some 500, impliedVolatility = Some 0.3\<rparr>]"
       and puts = "[\<lparr>strike = Some 100, openInterest = Some 500, impliedVolatility = Some 0.3\<rparr>]"
       and k = 100]
  by simp

text \<open>
  C10. For every non-empty chain (whose records all carry a strike, so that no KeyError is
  raised) \<open>calculate_max_pain\<close> returns a result whose \<open>max_pain\<close> is one of the strikes of
  the input calls or puts, whose total pain (as stored, rounded to cents) is minimal over
  those strikes, and which is the lowest strike among those attaining the minimum.
\<close>

theorem max_pain_lowest_minimiser:
  assumes "calls \<noteq> [] \<or> puts \<noteq> []"
    and "\<forall>c \<in> set calls \<union> set puts. strike c \<noteq> None"
  shows "\<exists>res. calculate_max_pain calls puts = Inr res
     \<and> max_pain res \<in> chain_strikes calls puts
     \<and> max_pain_value res = Some (stored_pain calls puts (max_pain res))
     \<and> (\<forall>s \<in> chain_strikes calls puts.
           stored_pain calls puts (max_pain res) \<le> stored_pain calls puts s
           \<and> (stored_pain calls puts s = stored_pain calls puts (max_pain res)
                \<longrightarrow> max_pain res \<le> s))"
proof -
  from calculate_max_pain_nonempty [OF assms(2) assms(1)] obtain m where
    m: "m \<in> chain_strikes calls puts"
    and c: "calculate_max_pain calls puts
       = Inr \<lparr>max_pain = m, max_pain_value = Some (stored_pain calls puts m),
              pain_by_strike = map (\<lambda>s. \<lparr>pain_strike = s, total_pain = stored_pain calls puts s\<rparr>)
                                 (sorted_list_of_set (chain_strikes calls puts))\<rparr>"
    and l: "\<forall>s \<in> chain_strikes calls puts.
           stored_pain calls puts m \<le> stored_pain calls puts s
           \<and> (stored_pain calls puts s = stored_pain calls puts m \<longrightarrow> m \<le> s)"
    by blast
  show ?thesis using m c l by simp
qed

theorem max_pain_lowest_minimiser_witness:
  "\<exists>res. calculate_max_pain
        [\<lparr>strike = Some 95, openInterest = Some 100, impliedVolatility = Some 0.3\<rparr>,
         \<lparr>strike = Some 100, openInterest = Some 500, impliedVolatility = Some 0.3\<rparr>,
         \<lparr>strike = Some 105, openInterest = Some 100, impliedVolatility = Some 0.3\<rparr>]
        [\<lparr>strike = Some 95, openInterest = Some 100, impliedVolatility = Some 0.3\<rparr>,
         \<lparr>strike = Some 100, openInterest = Some 500, impliedVolatility = Some 0.3\<rparr>,
         \<lparr>strike = Some 105, openInterest = None, impliedVolatility = Some 0.3\<rparr>] = Inr res
     \<and> max_pain res = 100 \<and> max_pain_value res = Some 50000"
proof -
  let ?calls = "[\<lparr>strike = Some 95, openInterest = Some 100, impliedVolatility = Some 0.3\<rparr>,
         \<lparr>strike = Some 100, openInterest = Some 500, impliedVolatility = Some 0.3\<rparr>,
         \<lparr>strike = Some 105, openInterest = Some 100, impliedVolatility = Some (0.3::real)\<rparr>]"
  let ?puts = "[\<lparr>strike = Some 95, openInterest = Some 100, impliedVolatility = Some 0.3\<rparr>,
         \<lparr>strike = Some 100, openInterest = Some 500, impliedVolatility = Some 0.3\<rparr>,
         \<lparr>strike = Some 105, openInterest = None, impliedVolatility = Some (0.3::real)\<rparr>]"
  have s: "chain_strikes ?calls ?puts = {95, 100, 105}"
    unfolding chain_strikes_def by auto
  have p95: "stored_pain ?calls ?puts 95 = 250000"
    using py_round_of_int [of 2 250000]
    by (simp add: stored_pain_def spec_total_pain_def get_default_def)
  have p100: "stored_pain ?calls ?puts 100 = 50000"
    using py_round_of_int [of 2 50000]
    by (simp add: stored_pain_def spec_total_pain_def get_default_def)
  have p105: "stored_pain ?calls ?puts 105 = 350000"
    using py_round_of_int [of 2 350000]
    by (simp add: stored_pain_def spec_total_pain_def get_default_def)
  have "?calls \<noteq> [] \<or> ?puts \<noteq> []" by simp
  moreover have "\<forall>c \<in> set ?calls \<union> set ?puts. strike c \<noteq> None" by simp
  ultimately obtain res where r: "calculate_max_pain ?calls ?puts = Inr res"
    and m: "max_pain res \<in> {95, 100, 105}"
    and v: "max_pain_value res = Some (stored_pain ?calls ?puts (max_pain res))"
    and l: "stored_pain ?calls ?puts (max_pain res) \<le> stored_pain ?calls ?puts 100"
    using max_pain_lowest_minimiser [of ?calls ?puts] unfolding s by blast
  from m l p95 p100 p105 have "max_pain res = 100" by auto
  with r v p100 show ?thesis by simp
qed

section \<open>Greeks primitives: the zero guards\<close>

lemma norm_pdf_pos: "0 < norm_pdf x"
  by (simp add: norm_pdf_def)

lemma black_scholes_gamma_nonneg: "0 \<le> black_scholes_gamma S K T r sigma"
  using norm_pdf_pos [of "(ln (S / K) + (r + 0.5 * sigma\<^sup>2) * T) / (sigma * sqrt T)"]
  by (simp add: black_scholes_gamma_def Let_def)

lemma black_scholes_gamma_pos:
  assumes "0 < T" and "0 < sigma" and "0 < S"
  shows "0 < black_scholes_gamma S K T r sigma"
  using assms norm_pdf_pos [of "(ln (S / K) + (r + 0.5 * sigma\<^sup>2) * T) / (sigma * sqrt T)"]
  by (simp add: black_scholes_gamma_def Let_def)

text \<open>
  C3 as stated (all four Greeks return 0 whenever \<open>T \<le> 0.001\<close>) fails for gamma, whose
  guard is \<open>T \<le> 0\<close>: at \<open>T = 0.001\<close>, the value the exposure builder passes for an
  expiry of today, gamma is positive.
\<close>

theorem gamma_at_time_floor_counterexample:
  "(0.001::real) \<le> 0.001 \<and> black_scholes_gamma 100 100 0.001 0.05 0.3 \<noteq> 0"
  using black_scholes_gamma_pos [of "0.001" "0.3" 100 100 "0.05"] by simp

text \<open>
  C3, amended. \<open>black_scholes_gamma\<close> and \<open>black_scholes_delta\<close> return exactly 0 for
  every input with \<open>T \<le> 0\<close>, \<open>sigma \<le> 0\<close> or \<open>S \<le> 0\<close>; \<open>black_scholes_charm\<close> and
  \<open>black_scholes_vanna\<close> return exactly 0 for every input with \<open>T \<le> 0.001\<close>,
  \<open>sigma \<le> 0\<close> or \<open>S \<le> 0\<close>.
\<close>

theorem greeks_zero_guards:
  "(T \<le> 0 \<or> sigma \<le> 0 \<or> S \<le> 0 \<longrightarrow>
      black_scholes_gamma S K T r sigma = 0 \<and> black_scholes_delta S K T r sigma option_type = 0)
   \<and> (T \<le> 0.001 \<or> sigma \<le> 0 \<or> S \<le> 0 \<longrightarrow>
      black_scholes_charm S K T r sigma option_type = 0 \<and> black_scholes_vanna S K T r sigma = 0)"
  by (simp add: black_scholes_gamma_def black_scholes_delta_def black_scholes_charm_def
      black_scholes_vanna_def)

theorem greeks_zero_guards_witness:
  "black_scholes_gamma 100 100 0 0.05 0.3 = 0
   \<and> black_scholes_delta 100 100 0 0.05 0.3 ''put'' = 0
   \<and> black_scholes_charm 100 100 0.001 0.05 0.3 ''call'' = 0
   \<and> black_scholes_vanna 100 100 0.001 0.05 0.3 = 0"
  using greeks_zero_guards [of 0 "0.3" 100 100 "0.05" "''put''"]
    greeks_zero_guards [of "0.001" "0.3" 100 100 "0.05" "''call''"]
  by simp

section \<open>Exposure builder: rows, flip point and regime\<close>

lemma gex_by_strike_profile:
  "gex_by_strike (calculate_gex_profile calls puts spot dte r)
     = map (gex_row (leg_map calls) (leg_map puts) spot (time_to_expiry dte) r)
         (profile_strikes calls puts)"
  by (simp add: calculate_gex_profile_def Let_def)

lemma flip_point_profile:
  "flip_point (calculate_gex_profile calls puts spot dte r)
     = find_gex_flip (gex_by_strike (calculate_gex_profile calls puts spot dte r)) spot"
  by (simp add: calculate_gex_profile_def Let_def)

lemma total_gex_profile:
  "total_gex (calculate_gex_profile calls puts spot dte r)
     = py_round 2 (aggregate_gex calls puts spot dte r)"
  by (simp add: calculate_gex_profile_def aggregate_gex_def Let_def)

lemma gex_regime_profile:
  "gex_regime (calculate_gex_profile calls puts spot dte r)
     = (case flip_point (calculate_gex_profile calls puts spot dte r) of
          Some f \<Rightarrow> if spot \<ge> f then ''POSITIVE_GAMMA'' else ''NEGATIVE_GAMMA''
        | None \<Rightarrow> if aggregate_gex calls puts spot dte r \<ge> 0
                  then ''POSITIVE_GAMMA'' else ''NEGATIVE_GAMMA'')"
  by (simp add: calculate_gex_profile_def aggregate_gex_def Let_def)

lemma crossings_no_sign_change:
  "\<not> adjacent_sign_change rows \<Longrightarrow> crossings rows = []"
proof (induction rows rule: crossings.induct)
  case (1 r1 r2 rs)
  from "1.prems" have a: "\<not> (0 < net_gex r1 \<and> net_gex r2 < 0)"
    and b: "\<not> (net_gex r1 < 0 \<and> 0 < net_gex r2)"
    and c: "\<not> adjacent_sign_change (r2 # rs)" by simp_all
  from a b have "\<not> net_gex r1 * net_gex r2 < 0" by (auto simp: mult_less_0_iff)
  with "1.IH" c show ?case by (simp add: Let_def)
qed simp_all

lemma time_to_expiry_pos: "0 < time_to_expiry dte"
  by (simp add: time_to_expiry_def)

lemma profile_strikes_set:
  "set (profile_strikes calls puts) = leg_strikes calls \<union> leg_strikes puts"
  by (simp add: profile_strikes_def leg_strikes_def)

lemma profile_strikes_pos: "k \<in> set (profile_strikes calls puts) \<Longrightarrow> 0 < k"
  unfolding profile_strikes_set leg_strikes_def by auto

lemma row_strike_gex_row [simp]: "row_strike (gex_row cm pm spot T r k) = k"
  by (simp add: gex_row_def Let_def)

lemma profile_rows_strike_pos:
  "row \<in> set (gex_by_strike (calculate_gex_profile calls puts spot dte r)) \<Longrightarrow> 0 < row_strike row"
  unfolding gex_by_strike_profile using profile_strikes_pos by auto

text \<open>
  C6. When no two adjacent rows of the profile have opposite-signed \<open>net_gex\<close>,
  \<open>calculate_gex_profile\<close> returns no flip point and the regime follows the sign of the
  aggregate net GEX (the sum of the call and put totals, whose rounding is the returned
  \<open>total_gex\<close>): POSITIVE_GAMMA when it is non-negative, NEGATIVE_GAMMA otherwise.
\<close>

theorem no_sign_change_regime_from_aggregate:
  assumes "\<not> adjacent_sign_change (gex_by_strike (calculate_gex_profile calls puts spot dte r))"
  shows "flip_point (calculate_gex_profile calls puts spot dte r) = None
     \<and> gex_regime (calculate_gex_profile calls puts spot dte r)
         = (if aggregate_gex calls puts spot dte r \<ge> 0
            then ''POSITIVE_GAMMA'' else ''NEGATIVE_GAMMA'')
     \<and> total_gex (calculate_gex_profile calls puts spot dte r)
         = py_round 2 (aggregate_gex calls puts spot dte r)"
proof -
  have "crossings (gex_by_strike (calculate_gex_profile calls puts spot dte r)) = []"
    using assms by (rule crossings_no_sign_change)
  then have f: "flip_point (calculate_gex_profile calls puts spot dte r) = None"
    unfolding flip_point_profile by (simp add: find_gex_flip_def)
  show ?thesis
    using f by (simp add: gex_regime_profile total_gex_profile)
qed

lemma no_sign_change_nonneg:
  "\<forall>row \<in> set rows. 0 \<le> net_gex row \<Longrightarrow> \<not> adjacent_sign_change rows"
  by (induction rows rule: adjacent_sign_change.induct) auto

lemma strike_put_gex_empty [simp]: "strike_put_gex Map.empty spot T r k = 0"
  by (simp add: strike_put_gex_def map_oi_def)

lemma strike_put_gex_empty_fun: "strike_put_gex Map.empty spot T r = (\<lambda>k. 0)"
  by (rule ext) simp

lemma strike_call_gex_nonneg:
  "0 \<le> map_oi cm k \<Longrightarrow> 0 \<le> spot \<Longrightarrow> 0 \<le> strike_call_gex cm spot T r k"
  using black_scholes_gamma_nonneg [of spot k T r "max (map_iv cm k) 0.01"]
  by (simp add: strike_call_gex_def SHARES_PER_CONTRACT_def)

lemma net_gex_gex_row:
  "net_gex (gex_row cm pm spot T r k)
     = py_round 2 (strike_call_gex cm spot T r k + strike_put_gex pm spot T r k)"
  by (simp add: gex_row_def Let_def)

lemma sum_list_nonneg_real:
  fixes f :: "'a \<Rightarrow> real"
  shows "(\<And>x. x \<in> set xs \<Longrightarrow> 0 \<le> f x) \<Longrightarrow> 0 \<le> (\<Sum>x \<leftarrow> xs. f x)"
  by (induction xs) auto

theorem no_sign_change_regime_from_aggregate_witness:
  "flip_point (calculate_gex_profile
       [\<lparr>strike = Some 100, openInterest = Some 500, impliedVolatility = Some 0.3\<rparr>,
        \<lparr>strike = Some 110, openInterest = Some 10000, impliedVolatility = Some 0.25\<rparr>]
       [] 100 10 0.05) = None
   \<and> gex_regime (calculate_gex_profile
       [\<lparr>strike = Some 100, openInterest = Some 500, impliedVolatility = Some 0.3\<rparr>,
        \<lparr>strike = Some 110, openInterest = Some 10000, impliedVolatility = Some 0.25\<rparr>]
       [] 100 10 0.05) = ''POSITIVE_GAMMA''"
proof -
  let ?calls = "[\<lparr>strike = Some 100, openInterest = Some 500, impliedVolatility = Some 0.3\<rparr>,
        \<lparr>strike = Some (110::real), openInterest = Some 10000, impliedVolatility = Some (0.25::real)\<rparr>]"
  let ?cm = "leg_map ?calls"
  let ?T = "time_to_expiry 10"
  have pm: "leg_map [] = Map.empty" by (simp add: leg_map_def)
  have oi: "0 \<le> map_oi ?cm k" for k
    by (simp add: leg_map_def leg_strike_def get_default_def map_oi_def)
  have c: "0 \<le> strike_call_gex ?cm 100 ?T 0.05 k" for k
    by (rule strike_call_gex_nonneg [OF oi]) simp
  have rows: "\<forall>row \<in> set (gex_by_strike (calculate_gex_profile ?calls [] 100 10 0.05)).
                0 \<le> net_gex row"
    unfolding gex_by_strike_profile pm
    using c by (auto simp: net_gex_gex_row intro: py_round_nonneg)
  have h: "\<not> adjacent_sign_change (gex_by_strike (calculate_gex_profile ?calls [] 100 10 0.05))"
    using rows by (rule no_sign_change_nonneg)
  have "0 \<le> (\<Sum>k \<leftarrow> profile_strikes ?calls []. strike_call_gex ?cm 100 ?T 0.05 k)"
    using c by (intro sum_list_nonneg_real)
  then have agg: "0 \<le> aggregate_gex ?calls [] 100 10 0.05"
    unfolding aggregate_gex_def pm by (simp add: strike_put_gex_empty_fun)
  show ?thesis
    using no_sign_change_regime_from_aggregate [OF h] agg by simp
qed

section \<open>Gamma channel: the bounds bracket spot\<close>

lemma max_by_in_set: "max_by f m xs \<in> set (m # xs)"
  by (induction xs arbitrary: m) (auto split: if_splits)

lemma initial_floor_below:
  assumes "initial_floor rows spot max_gex th = Some f"
  shows "f < spot \<and> f \<in> row_strike ` set rows"
proof (cases "filter (\<lambda>s. row_strike s < spot \<and> net_gex s > max_gex * th) rows = []")
  case False
  let ?bp = "filter (\<lambda>s. row_strike s < spot \<and> net_gex s > max_gex * th) rows"
  have f: "f = Max (set (map row_strike ?bp))"
    using assms False by (simp add: initial_floor_def Let_def)
  have "Max (set (map row_strike ?bp)) \<in> set (map row_strike ?bp)"
    using False by (intro Max_in) (auto simp: filter_empty_conv)
  then show ?thesis unfolding f by auto
next
  case True
  let ?any = "filter (\<lambda>s. row_strike s < spot \<and> \<bar>net_gex s\<bar> > max_gex * 0.10) rows"
  from assms True obtain e es where e: "?any = e # es"
    and f: "f = row_strike (max_by (\<lambda>s. \<bar>net_gex s\<bar>) e es)"
    by (auto simp: initial_floor_def Let_def split: list.splits)
  have "max_by (\<lambda>s. \<bar>net_gex s\<bar>) e es \<in> set ?any" unfolding e by (rule max_by_in_set)
  then show ?thesis unfolding f by auto
qed

lemma initial_ceiling_above:
  assumes "initial_ceiling rows spot max_gex th = Some c"
  shows "spot < c \<and> c \<in> row_strike ` set rows"
proof (cases "filter (\<lambda>s. row_strike s > spot \<and> net_gex s > max_gex * th) rows = []")
  case False
  let ?ap = "filter (\<lambda>s. row_strike s > spot \<and> net_gex s > max_gex * th) rows"
  have c: "c = Min (set (map row_strike ?ap))"
    using assms False by (simp add: initial_ceiling_def Let_def)
  have "Min (set (map row_strike ?ap)) \<in> set (map row_strike ?ap)"
    using False by (intro Min_in) (auto simp: filter_empty_conv)
  then show ?thesis unfolding c by auto
next
  case True
  let ?any = "filter (\<lambda>s. row_strike s > spot \<and> \<bar>net_gex s\<bar> > max_gex * 0.10) rows"
  from assms True obtain e es where e: "?any = e # es"
    and c: "c = row_strike (min_by (\<lambda>s. \<bar>net_gex s\<bar>) e es)"
    by (auto simp: initial_ceiling_def Let_def split: list.splits)
  have "min_by (\<lambda>s. \<bar>net_gex s\<bar>) e es \<in> set ?any" unfolding e by (rule min_by_in_set)
  then show ?thesis unfolding c by auto
qed

lemma widen_floor_in:
  "widen_floor spot th nf ss \<in> insert nf (row_strike ` set ss)"
  by (induction ss arbitrary: nf) (auto split: if_splits)

lemma widen_ceiling_in:
  "widen_ceiling spot th nc ss \<in> insert nc (row_strike ` set ss)"
  by (induction ss arbitrary: nc) (auto split: if_splits)

lemma widen_channel_bounds:
  assumes "widen_channel rows spot f c max_gex mw = (nf, nc)"
  shows "(nf = f \<or> (nf < f \<and> nf \<in> row_strike ` set rows))
       \<and> (nc = c \<or> (c < nc \<and> nc \<in> row_strike ` set rows))"
proof -
  let ?th = "(mw / 100) * spot / 2"
  let ?cb = "sort_key (\<lambda>s. - row_strike s)
              (filter (\<lambda>s. row_strike s < f \<and> \<bar>net_gex s\<bar> > max_gex * 0.05) rows)"
  let ?ca = "sort_key row_strike
              (filter (\<lambda>s. row_strike s > c \<and> \<bar>net_gex s\<bar> > max_gex * 0.05) rows)"
  from assms have nf: "nf = widen_floor spot ?th f ?cb" and nc: "nc = widen_ceiling spot ?th c ?ca"
    by (simp_all add: widen_channel_def Let_def)
  have "nf \<in> insert f (row_strike ` set ?cb)" unfolding nf by (rule widen_floor_in)
  moreover have "nc \<in> insert c (row_strike ` set ?ca)" unfolding nc by (rule widen_ceiling_in)
  ultimately show ?thesis by auto
qed

lemma channel_bounds_bracket:
  assumes "channel_bounds rows spot max_gex ft ct mw = (Some f, Some c, d)"
  shows "f < spot \<and> spot < c \<and> f \<in> row_strike ` set rows \<and> c \<in> row_strike ` set rows"
proof -
  obtain f0 c0 where f0: "initial_floor rows spot max_gex ft = Some f0"
    and c0: "initial_ceiling rows spot max_gex ct = Some c0"
    using assms by (auto simp: channel_bounds_def Let_def split: option.splits)
  note a = initial_floor_below [OF f0] and b = initial_ceiling_above [OF c0]
  show ?thesis
  proof (cases "f0 \<noteq> 0 \<and> c0 \<noteq> 0 \<and> 100 * (c0 - f0) / spot < mw")
    case False
    with assms f0 c0 have "f = f0" "c = c0"
      by (auto simp: channel_bounds_def Let_def)
    with a b show ?thesis by simp
  next
    case True
    with assms f0 c0 have "widen_channel rows spot f0 c0 max_gex mw = (f, c)"
      by (auto simp: channel_bounds_def Let_def split: prod.splits)
    from widen_channel_bounds [OF this] a b show ?thesis by auto
  qed
qed

lemma py_round_unit_interval:
  assumes "0 \<le> x" and "x \<le> 1"
  shows "0 \<le> py_round n x \<and> py_round n x \<le> 1"
proof -
  have "py_round n x \<le> py_round n (of_int 1)" using assms(2) by (intro py_round_mono) simp
  then have "py_round n x \<le> 1" using py_round_of_int [of n 1] by simp
  then show ?thesis using py_round_nonneg [OF assms(1)] by simp
qed

text \<open>
  C9. For every per-strike profile (rows with positive strikes, as every profile built by
  \<open>calculate_gex_profile\<close> has) and spot above 0: whenever \<open>extract_channel\<close> returns both
  a floor and a ceiling, also after degenerate-band widening, floor < spot < ceiling holds and
  \<open>channel_position\<close> is a number in [0, 1].
\<close>

theorem channel_brackets_spot:
  assumes "0 < spot"
    and "\<forall>row \<in> set rows. 0 < row_strike row"
    and "ch_floor (extract_channel rows spot ft ct mw) = Some f"
    and "ch_ceiling (extract_channel rows spot ft ct mw) = Some c"
  shows "f < spot \<and> spot < c
     \<and> (\<exists>p. channel_position (extract_channel rows spot ft ct mw) = Some p \<and> 0 \<le> p \<and> p \<le> 1)"
proof -
  let ?mg = "Max (set (map (\<lambda>s. \<bar>net_gex s\<bar>) rows))"
  have ne: "\<not> (rows = [] \<or> spot \<le> 0)"
    using assms(3) by (auto simp: extract_channel_def empty_channel_def)
  have mg: "\<not> ?mg \<le> 0"
    using assms(3) ne by (auto simp: extract_channel_def empty_channel_def Let_def split: if_splits)
  obtain fo co d where cb: "channel_bounds rows spot ?mg ft ct mw = (fo, co, d)"
    by (cases "channel_bounds rows spot ?mg ft ct mw") auto
  have ex: "extract_channel rows spot ft ct mw
    = \<lparr>ch_floor = fo, ch_ceiling = co,
       floor_distance_pct =
         (if truthy fo then Some (py_round 2 (100 * (spot - get_default 0 fo) / spot)) else None),
       ceiling_distance_pct =
         (if truthy co then Some (py_round 2 (100 * (get_default 0 co - spot) / spot)) else None),
       width_pct = (if truthy fo \<and> truthy co
                    then Some (py_round 2 (100 * (get_default 0 co - get_default 0 fo) / spot)) else None),
       channel_position =
         (if (truthy fo \<and> truthy co) \<and> get_default 0 co > get_default 0 fo
          then Some (py_round 3 ((spot - get_default 0 fo) / (get_default 0 co - get_default 0 fo)))
          else None),
       floor_gex = py_round 2 (bound_gex rows fo),
       ceiling_gex = py_round 2 (bound_gex rows co),
       degenerate = d\<rparr>"
    by (simp only: extract_channel_def Let_def ne mg cb if_False prod.case)
  from assms(3,4) have fo: "fo = Some f" and co: "co = Some c" unfolding ex by simp_all
  from channel_bounds_bracket [OF cb [unfolded fo co]]
  have lt: "f < spot" "spot < c" and fin: "f \<in> row_strike ` set rows" and cin: "c \<in> row_strike ` set rows"
    by simp_all
  from fin cin assms(2) have pos: "0 < f" "0 < c" by auto
  have r: "0 \<le> (spot - f) / (c - f)" "(spot - f) / (c - f) \<le> 1" using lt by simp_all
  have cp: "channel_position (extract_channel rows spot ft ct mw)
      = Some (py_round 3 ((spot - f) / (c - f)))"
    unfolding ex fo co using pos lt by (simp add: truthy_def get_default_def)
  show ?thesis using lt cp py_round_unit_interval [OF r] by simp
qed

theorem channel_brackets_spot_witness:
  "ch_floor (extract_channel
      [strike_gex_row 99.5 800, strike_gex_row 100.5 800, strike_gex_row 95 200,
       strike_gex_row 105 200] 100 0.15 0.15 2.0) = Some 95
   \<and> ch_ceiling (extract_channel
      [strike_gex_row 99.5 800, strike_gex_row 100.5 800, strike_gex_row 95 200,
       strike_gex_row 105 200] 100 0.15 0.15 2.0) = Some 105
   \<and> (95::real) < 100 \<and> (100::real) < 105
   \<and> (\<exists>p. channel_position (extract_channel
      [strike_gex_row 99.5 800, strike_gex_row 100.5 800, strike_gex_row 95 200,
       strike_gex_row 105 200] 100 0.15 0.15 2.0) = Some p \<and> 0 \<le> p \<and> p \<le> 1)"
proof -
  let ?rows = "[strike_gex_row (199 / 2) 800, strike_gex_row (201 / 2) 800, strike_gex_row 95 200,
       strike_gex_row 105 200]"
  have mg: "Max (set (map (\<lambda>s. \<bar>net_gex s\<bar>) ?rows)) = 800"
    by (simp add: strike_gex_row_def)
  have fl: "initial_floor ?rows 100 800 (3 / 20) = Some (199 / 2)"
    by (simp add: initial_floor_def strike_gex_row_def Let_def)
  have ce: "initial_ceiling ?rows 100 800 (3 / 20) = Some (201 / 2)"
    by (simp add: initial_ceiling_def strike_gex_row_def Let_def)
  have wd: "widen_channel ?rows 100 (199 / 2) (201 / 2) 800 2 = (95, 105)"
    by (simp add: widen_channel_def strike_gex_row_def Let_def)
  have cb: "channel_bounds ?rows 100 800 (3 / 20) (3 / 20) 2 = (Some 95, Some 105, True)"
    by (simp add: channel_bounds_def fl ce wd Let_def)
  have hf: "ch_floor (extract_channel ?rows 100 (3 / 20) (3 / 20) 2) = Some 95"
    unfolding extract_channel_def Let_def mg cb by simp
  have hc: "ch_ceiling (extract_channel ?rows 100 (3 / 20) (3 / 20) 2) = Some 105"
    unfolding extract_channel_def Let_def mg cb by simp
  have pos: "\<forall>row \<in> set ?rows. 0 < row_strike row" by (simp add: strike_gex_row_def)
  have sp: "(0::real) < 100" by simp
  from channel_brackets_spot [OF sp pos hf hc] hf hc show ?thesis by simp
qed

section \<open>Autocorrelation: constant, rising and alternating series\<close>

lemma pct_change_zigzag:
  "pct_change zigzag_rise
     = [1, 1/2, 1, 1/2, 1, 1/2, 1, 1/2, 1, 1/2, 1, 1/2, 1, 1/2, 1, 1/2, 1, 1/2, 1, 1/2]"
  by (simp add: pct_change_def zigzag_rise_def)

lemma np_mean_zigzag: "np_mean (pct_change zigzag_rise) = 3/4"
  unfolding pct_change_zigzag by (simp add: np_mean_def)

lemma np_var_zigzag: "np_var (pct_change zigzag_rise) = 1/16"
  unfolding np_var_def np_mean_zigzag unfolding pct_change_zigzag
  by (simp add: np_mean_def power2_eq_square)

lemma lag_acf_zigzag: "lag_acf (pct_change zigzag_rise) 1 = -1"
  unfolding lag_acf_def Let_def np_var_zigzag np_mean_zigzag unfolding pct_change_zigzag
  by (simp add: np_mean_def)

text \<open>
  C5 as stated (every strictly monotonic series has a positive lag-1 autocorrelation)
  fails: the strictly increasing series \<open>zigzag_rise\<close> passes the length guard and the
  variance floor, and its lag-1 autocorrelation is -1.
\<close>

theorem rising_series_negative_acf_counterexample:
  "sorted_wrt (<) zigzag_rise \<and> hd (compute_daily_acf zigzag_rise 10) = Some (-1)"
proof -
  have a: "sorted_wrt (<) zigzag_rise" by (simp add: zigzag_rise_def)
  have l: "length (pct_change zigzag_rise) = 20" unfolding pct_change_zigzag by simp
  have "compute_daily_acf zigzag_rise 10
      = map (\<lambda>lag. Some (lag_acf (pct_change zigzag_rise) lag)) [1..<10 + 1]"
    by (simp add: compute_daily_acf_def Let_def l np_var_zigzag)
  also have "[1..<10 + 1] = 1 # [2..<(11::nat)]" by (simp add: upt_conv_Cons)
  finally show ?thesis using a lag_acf_zigzag by simp
qed

lemma pct_change_constant:
  assumes "c \<noteq> 0"
  shows "pct_change (constant_prices c n) = replicate (n - 1) 0"
proof (rule nth_equalityI)
  show "length (pct_change (constant_prices c n)) = length (replicate (n - 1) (0::real))"
    by (simp add: pct_change_def constant_prices_def)
next
  fix i assume "i < length (pct_change (constant_prices c n))"
  then have i: "i < n - 1" by (simp add: pct_change_def constant_prices_def)
  then show "pct_change (constant_prices c n) ! i = replicate (n - 1) 0 ! i"
    using assms by (simp add: pct_change_def constant_prices_def nth_tl)
qed

lemma np_var_zeros: "np_var (replicate m 0) = 0"
  by (simp add: np_var_def np_mean_def sum_list_replicate)

lemma pct_change_alternating:
  assumes "0 < a" and "0 < b"
  shows "pct_change (alternating_prices a b n)
     = map (\<lambda>i. if even i then b / a - 1 else a / b - 1) [0..<n - 1]"
proof (rule nth_equalityI)
  show "length (pct_change (alternating_prices a b n))
      = length (map (\<lambda>i. if even i then b / a - 1 else a / b - 1) [0..<n - 1])"
    by (simp add: pct_change_def alternating_prices_def)
next
  fix i assume "i < length (pct_change (alternating_prices a b n))"
  then have i: "i < n - 1" by (simp add: pct_change_def alternating_prices_def)
  then show "pct_change (alternating_prices a b n) ! i
      = map (\<lambda>i. if even i then b / a - 1 else a / b - 1) [0..<n - 1] ! i"
    by (simp add: pct_change_def alternating_prices_def nth_tl)
qed

lemma sum_list_lower_strict:
  fixes xs :: "real list"
  assumes "\<forall>x \<in> set xs. lo \<le> x" and "\<exists>x \<in> set xs. lo < x"
  shows "lo * of_nat (length xs) < sum_list xs"
  using assms
proof (induction xs)
  case Nil
  then show ?case by simp
next
  case (Cons x xs)
  have w: "lo * of_nat (length xs) \<le> sum_list xs"
    using Cons.prems(1) by (induction xs) (auto simp: algebra_simps)
  show ?case
  proof (cases "lo < x")
    case True
    with w show ?thesis by (simp add: algebra_simps)
  next
    case False
    with Cons.prems have "\<exists>y \<in> set xs. lo < y" and "lo \<le> x" by auto
    with Cons.IH Cons.prems(1) show ?thesis by (simp add: algebra_simps)
  qed
qed

lemma sum_list_upper_strict:
  fixes xs :: "real list"
  assumes "\<forall>x \<in> set xs. x \<le> hi" and "\<exists>x \<in> set xs. x < hi"
  shows "sum_list xs < hi * of_nat (length xs)"
proof -
  have "(- hi) * of_nat (length (map uminus xs)) < sum_list (map uminus xs)"
    using assms by (intro sum_list_lower_strict) auto
  moreover have "sum_list (map uminus xs) = - sum_list xs"
    by (induction xs) auto
  ultimately show ?thesis by simp
qed

lemma np_mean_between:
  assumes "lo < hi" and "2 \<le> m"
  shows "lo < np_mean (map (\<lambda>i. if even i then lo else hi) [0..<m])
       \<and> np_mean (map (\<lambda>i. if even i then lo else hi) [0..<m]) < hi"
    and "lo < np_mean (map (\<lambda>i. if even i then hi else lo) [0..<m])
       \<and> np_mean (map (\<lambda>i. if even i then hi else lo) [0..<m]) < hi"
proof -
  have m0: "0 < m" and m1: "1 < m" using assms(2) by simp_all
  have in0: "(0::nat) \<in> set [0..<m]" and in1: "(1::nat) \<in> set [0..<m]" using m0 m1 by simp_all
  have mpos: "(0::real) < of_nat m" using m0 by simp
  {
    fix f :: "nat \<Rightarrow> real"
    assume r: "\<forall>i. f i = lo \<or> f i = hi" and d: "f 0 \<noteq> f 1"
    let ?xs = "map f [0..<m]"
    have len: "length ?xs = m" by simp
    have b1: "\<forall>x \<in> set ?xs. lo \<le> x" using r assms(1) by (auto simp: less_eq_real_def)
    have b2: "\<forall>x \<in> set ?xs. x \<le> hi" using r assms(1) by (auto simp: less_eq_real_def)
    have "f 0 = hi \<or> f 1 = hi" using r d by metis
    then have e1: "\<exists>x \<in> set ?xs. lo < x" using in0 in1 assms(1) by (metis image_eqI set_map)
    have "f 0 = lo \<or> f 1 = lo" using r d by metis
    then have e2: "\<exists>x \<in> set ?xs. x < hi" using in0 in1 assms(1) by (metis image_eqI set_map)
    have "lo * of_nat m < sum_list ?xs" using sum_list_lower_strict [OF b1 e1] by simp
    moreover have "sum_list ?xs < hi * of_nat m" using sum_list_upper_strict [OF b2 e2] by simp
    ultimately have "lo < np_mean ?xs \<and> np_mean ?xs < hi"
      using mpos by (simp add: np_mean_def field_simps)
  }
  note gen = this
  show "lo < np_mean (map (\<lambda>i. if even i then lo else hi) [0..<m])
       \<and> np_mean (map (\<lambda>i. if even i then lo else hi) [0..<m]) < hi"
    using assms(1) by (intro gen) auto
  show "lo < np_mean (map (\<lambda>i. if even i then hi else lo) [0..<m])
       \<and> np_mean (map (\<lambda>i. if even i then hi else lo) [0..<m]) < hi"
    using assms(1) by (intro gen) auto
qed

lemma alternating_products:
  fixes u v mu :: real
  assumes "0 < m"
  shows "map2 (\<lambda>x y. (x - mu) * (y - mu))
           (take (m - 1) (map (\<lambda>i. if even i then u else v) [0..<m]))
           (drop 1 (map (\<lambda>i. if even i then u else v) [0..<m]))
         = replicate (m - 1) ((u - mu) * (v - mu))"
proof (rule nth_equalityI)
  show "length (map2 (\<lambda>x y. (x - mu) * (y - mu))
           (take (m - 1) (map (\<lambda>i. if even i then u else v) [0..<m]))
           (drop 1 (map (\<lambda>i. if even i then u else v) [0..<m])))
      = length (replicate (m - 1) ((u - mu) * (v - mu)))" by simp
next
  fix i
  assume "i < length (map2 (\<lambda>x y. (x - mu) * (y - mu))
           (take (m - 1) (map (\<lambda>i. if even i then u else v) [0..<m]))
           (drop 1 (map (\<lambda>i. if even i then u else v) [0..<m])))"
  then have i: "i < m - 1" by simp
  then show "map2 (\<lambda>x y. (x - mu) * (y - mu))
           (take (m - 1) (map (\<lambda>i. if even i then u else v) [0..<m]))
           (drop 1 (map (\<lambda>i. if even i then u else v) [0..<m])) ! i
      = replicate (m - 1) ((u - mu) * (v - mu)) ! i"
    by (simp add: algebra_simps)
qed

lemma np_var_nonneg: "0 \<le> np_var xs"
  unfolding np_var_def np_mean_def
  by (intro divide_nonneg_nonneg sum_list_nonneg) auto

lemma lag1_alternating_negative:
  fixes u v :: real
  assumes "u \<noteq> v" and "2 \<le> m"
    and "0 < np_var (map (\<lambda>i. if even i then u else v) [0..<m])"
  shows "lag_acf (map (\<lambda>i. if even i then u else v) [0..<m]) 1 < 0"
proof -
  let ?r = "map (\<lambda>i. if even i then u else v) [0..<m]"
  let ?mu = "np_mean ?r"
  have m0: "0 < m" and m1: "0 < m - 1" using assms(2) by simp_all
  have neg: "(u - ?mu) * (v - ?mu) < 0"
  proof (cases "u < v")
    case True
    from np_mean_between(1) [OF True assms(2)] show ?thesis
      by (simp add: mult_less_0_iff)
  next
    case False
    with assms(1) have "v < u" by simp
    from np_mean_between(2) [OF this assms(2)] show ?thesis
      by (simp add: mult_less_0_iff)
  qed
  have "np_mean (map2 (\<lambda>x y. (x - ?mu) * (y - ?mu)) (take (m - 1) ?r) (drop 1 ?r))
      = (u - ?mu) * (v - ?mu)"
    unfolding alternating_products [OF m0] using m1
    by (simp add: np_mean_def sum_list_replicate)
  then have "lag_acf ?r 1 = (u - ?mu) * (v - ?mu) / np_var ?r"
    by (simp add: lag_acf_def Let_def)
  then show ?thesis using neg assms(3) by (simp add: divide_neg_pos)
qed

text \<open>
  C5, amended. For \<open>compute_daily_acf\<close>: a constant (non-zero) price series yields an
  undefined autocorrelation at every lag; and a series alternating exactly between two
  distinct positive prices, long enough to pass the length guard and with a return variance
  not below the floor \<open>1e-12\<close>, yields a lag-1 autocorrelation below 0. (For strictly
  monotonic series no sign is promised.)
\<close>

theorem acf_constant_and_alternating:
  "(c \<noteq> 0 \<longrightarrow> compute_daily_acf (constant_prices c n) max_lag = replicate max_lag None)
   \<and> (0 < a \<and> 0 < b \<and> a \<noteq> b \<and> 0 < max_lag
        \<and> max_lag + 10 \<le> length (pct_change (alternating_prices a b n))
        \<and> \<not> np_var (pct_change (alternating_prices a b n)) < 1 / 10 ^ 12
      \<longrightarrow> (\<exists>v. hd (compute_daily_acf (alternating_prices a b n) max_lag) = Some v \<and> v < 0))"
proof (intro conjI impI)
  assume "c \<noteq> 0"
  then show "compute_daily_acf (constant_prices c n) max_lag = replicate max_lag None"
    by (simp add: compute_daily_acf_def Let_def pct_change_constant np_var_zeros)
next
  assume h: "0 < a \<and> 0 < b \<and> a \<noteq> b \<and> 0 < max_lag
        \<and> max_lag + 10 \<le> length (pct_change (alternating_prices a b n))
        \<and> \<not> np_var (pct_change (alternating_prices a b n)) < 1 / 10 ^ 12"
  let ?u = "b / a - 1" and ?v = "a / b - 1"
  let ?r = "map (\<lambda>i. if even i then ?u else ?v) [0..<n - 1]"
  have r: "pct_change (alternating_prices a b n) = ?r"
    using h by (intro pct_change_alternating) simp_all
  have len: "max_lag + 10 \<le> n - 1" using h unfolding r by simp
  then have m: "2 \<le> n - 1" by simp
  have "b * b \<noteq> a * a" using h by (metis less_le mult_less_cancel_left_pos mult_strict_mono' not_less_iff_gr_or_eq)
  then have uv: "?u \<noteq> ?v" using h by (simp add: field_simps)
  have var: "0 < np_var ?r"
  proof -
    have "(0::real) < 1 / 10 ^ 12" by simp
    moreover have "1 / 10 ^ 12 \<le> np_var ?r" using h unfolding r by simp
    ultimately show ?thesis by linarith
  qed
  have neg: "lag_acf ?r 1 < 0" by (rule lag1_alternating_negative [OF uv m var])
  have up: "[1..<max_lag + 1] = 1 # [Suc 1..<max_lag + 1]"
    using h by (intro upt_conv_Cons) simp
  have "compute_daily_acf (alternating_prices a b n) max_lag
      = map (\<lambda>lag. Some (lag_acf ?r lag)) [1..<max_lag + 1]"
    using h len unfolding compute_daily_acf_def Let_def r by simp
  then have "hd (compute_daily_acf (alternating_prices a b n) max_lag) = Some (lag_acf ?r 1)"
    unfolding up by simp
  with neg show "\<exists>v. hd (compute_daily_acf (alternating_prices a b n) max_lag) = Some v \<and> v < 0"
    by simp
qed

lemma alternating_21_returns:
  "pct_change (alternating_prices (201 / 2) (199 / 2) 21)
     = [- (2/201), 2/199, - (2/201), 2/199, - (2/201), 2/199, - (2/201), 2/199, - (2/201), 2/199,
        - (2/201), 2/199, - (2/201), 2/199, - (2/201), 2/199, - (2/201), 2/199, - (2/201), 2/199]"
proof -
  have "[0..<21 - 1] = [0,1,2,3,4,5,6,7,8,9,10,11,12,13,14,15,16,17,18,19::nat]"
    by (simp add: upt_rec)
  then show ?thesis
    by (simp add: pct_change_alternating)
qed

lemma alternating_21_var:
  "np_var (pct_change (alternating_prices (201 / 2) (199 / 2) 21)) = (400 / 39999)\<^sup>2"
  unfolding alternating_21_returns
  by (simp add: np_var_def np_mean_def power2_eq_square)

theorem acf_constant_and_alternating_witness:
  "compute_daily_acf (constant_prices 100 200) 5 = replicate 5 None
   \<and> (\<exists>v. hd (compute_daily_acf (alternating_prices 100.5 99.5 21) 10) = Some v \<and> v < 0)"
proof -
  have l: "length (pct_change (alternating_prices (201 / 2) (199 / 2) 21)) = 20"
    unfolding alternating_21_returns by simp
  have v: "\<not> np_var (pct_change (alternating_prices (201 / 2) (199 / 2) 21)) < 1 / 10 ^ 12"
    unfolding alternating_21_var by (simp add: power2_eq_square)
  show ?thesis
    using acf_constant_and_alternating [where c = 100 and n = 200 and max_lag = 5]
      acf_constant_and_alternating [where a = "201 / 2" and b = "199 / 2" and n = 21 and max_lag = 10]
      l v
    by simp
qed

section \<open>Exposure rows: rounding of the three exposures\<close>

lemma pow_chain_step:
  fixes c d x :: real
  assumes "0 \<le> c" and "c \<le> x ^ k" and "d \<le> c * c" and "m = 2 * k"
  shows "d \<le> x ^ m"
proof -
  have "c * c \<le> x ^ k * x ^ k" using assms(1,2) by (intro mult_mono) auto
  also have "\<dots> = x ^ m" unfolding assms(4) by (simp add: power_add mult_2)
  finally show ?thesis using assms(3) by linarith
qed

lemma exp_q_lower:
  "1071701 \<le> exp (203406203 / 14600000 :: real)"
proof -
  have e: "(1 + (203406203 / 14600000) / real (2048::nat)) ^ 2048 \<le> exp (203406203 / 14600000 :: real)"
    by (rule exp_ge_one_plus_x_over_n_power_n) simp_all
  have a: "1 + (203406203 / 14600000) / real (2048::nat) = (30104206203 / 29900800000 :: real)" by simp
  have s0: "100680270103141053 / 100000000000000000 \<le> (30104206203 / 29900800000 :: real) ^ 1" by simp
  have s1: "1013651678804143813 / 1000000000000000000 \<le> (30104206203 / 29900800000 :: real) ^ 2"
    by (rule pow_chain_step [OF _ s0]) simp_all
  have s2: "205497945188491827 / 200000000000000000 \<le> (30104206203 / 29900800000 :: real) ^ 4"
    by (rule pow_chain_step [OF _ s1]) simp_all
  have s3: "52786756845865489 / 50000000000000000 \<le> (30104206203 / 29900800000 :: real) ^ 8"
    by (rule pow_chain_step [OF _ s2]) simp_all
  have s4: "1114576679321810827 / 1000000000000000000 \<le> (30104206203 / 29900800000 :: real) ^ 16"
    by (rule pow_chain_step [OF _ s3]) simp_all
  have s5: "621140587044017363 / 500000000000000000 \<le> (30104206203 / 29900800000 :: real) ^ 32"
    by (rule pow_chain_step [OF _ s4]) simp_all
  have s6: "1543262515493546041 / 1000000000000000000 \<le> (30104206203 / 29900800000 :: real) ^ 64"
    by (rule pow_chain_step [OF _ s5]) simp_all
  have s7: "1190829595863733717 / 500000000000000000 \<le> (30104206203 / 29900800000 :: real) ^ 128"
    by (rule pow_chain_step [OF _ s6]) simp_all
  have s8: "2836150252769966741 / 500000000000000000 \<le> (30104206203 / 29900800000 :: real) ^ 256"
    by (rule pow_chain_step [OF _ s7]) simp_all
  have s9: "643499860502971699 / 20000000000000000 \<le> (30104206203 / 29900800000 :: real) ^ 512"
    by (rule pow_chain_step [OF _ s8]) simp_all
  have s10: "258807544042090022521 / 250000000000000000 \<le> (30104206203 / 29900800000 :: real) ^ 1024"
    by (rule pow_chain_step [OF _ s9]) simp_all
  have s11: "214340303529914773481283 / 200000000000000000 \<le> (30104206203 / 29900800000 :: real) ^ 2048"
    by (rule pow_chain_step [OF _ s10]) simp_all
  have "1071701 \<le> (30104206203 / 29900800000 :: real) ^ 2048" using s11 by simp
  then show ?thesis using e unfolding a by linarith
qed

lemma exp_minus_q_lower:
  "8487 / 10000000000 \<le> exp (- (203406203 / 14600000) :: real)"
proof -
  have e: "(1 - (203406203 / 14600000) / real (2048::nat)) ^ 2048 \<le> exp (- (203406203 / 14600000) :: real)"
    by (rule exp_ge_one_minus_x_over_n_power_n) simp_all
  have a: "1 - (203406203 / 14600000) / real (2048::nat) = (29697393797 / 29900800000 :: real)" by simp
  have s0: "496598649484294734589041 / 500000000000000000000000 \<le> (29697393797 / 29900800000 :: real) ^ 1" by simp
  have s1: "61652554667406355766001 / 62500000000000000000000 \<le> (29697393797 / 29900800000 :: real) ^ 2"
    by (rule pow_chain_step [OF _ s0]) simp_all
  have s2: "973065599236487481099371 / 1000000000000000000000000 \<le> (29697393797 / 29900800000 :: real) ^ 4"
    by (rule pow_chain_step [OF _ s1]) simp_all
  have s3: "946856660417464465959847 / 1000000000000000000000000 \<le> (29697393797 / 29900800000 :: real) ^ 8"
    by (rule pow_chain_step [OF _ s2]) simp_all
  have s4: "7172300283015308959913 / 8000000000000000000000 \<le> (29697393797 / 29900800000 :: real) ^ 16"
    by (rule pow_chain_step [OF _ s3]) simp_all
  have s5: "803779552339710640688017 / 1000000000000000000000000 \<le> (29697393797 / 29900800000 :: real) ^ 32"
    by (rule pow_chain_step [OF _ s4]) simp_all
  have s6: "646061568759425637279097 / 1000000000000000000000000 \<le> (29697393797 / 29900800000 :: real) ^ 64"
    by (rule pow_chain_step [OF _ s5]) simp_all
  have s7: "26087221914243128786037 / 62500000000000000000000 \<le> (29697393797 / 29900800000 :: real) ^ 128"
    by (rule pow_chain_step [OF _ s6]) simp_all
  have s8: "34843809136791906948409 / 200000000000000000000000 \<le> (29697393797 / 29900800000 :: real) ^ 256"
    by (rule pow_chain_step [OF _ s7]) simp_all
  have s9: "30352275879029579390607 / 1000000000000000000000000 \<le> (29697393797 / 29900800000 :: real) ^ 512"
    by (rule pow_chain_step [OF _ s8]) simp_all
  have s10: "921260651036720826289 / 1000000000000000000000000 \<le> (29697393797 / 29900800000 :: real) ^ 1024"
    by (rule pow_chain_step [OF _ s9]) simp_all
  have s11: "169744237429720541 / 200000000000000000000000 \<le> (29697393797 / 29900800000 :: real) ^ 2048"
    by (rule pow_chain_step [OF _ s10]) simp_all
  have "8487 / 10000000000 \<le> (29697393797 / 29900800000 :: real) ^ 2048" using s11 by simp
  then show ?thesis using e unfolding a by linarith
qed

lemma round_half_even_unique:
  assumes "of_int k - 1/2 < x" and "x < of_int k + 1/2"
  shows "round_half_even x = k"
proof (cases "of_int k \<le> x")
  case True
  then have f: "\<lfloor>x\<rfloor> = k" using assms(2) by (intro floor_unique) simp_all
  show ?thesis unfolding round_half_even_def Let_def f using assms(2) by simp
next
  case False
  then have f: "\<lfloor>x\<rfloor> = k - 1" using assms(1) by (intro floor_unique) simp_all
  show ?thesis unfolding round_half_even_def Let_def f using assms(1) False by simp
qed

lemma round_half_even_add:
  "\<bar>round_half_even (x + y) - (round_half_even x + round_half_even y)\<bar> \<le> 1"
proof -
  have "\<bar>of_int (round_half_even (x + y)) - (of_int (round_half_even x) + of_int (round_half_even y))\<bar>
      \<le> (3/2 :: real)"
    using round_half_even_lower [of "x + y"] round_half_even_upper [of "x + y"]
      round_half_even_lower [of x] round_half_even_upper [of x]
      round_half_even_lower [of y] round_half_even_upper [of y]
    by linarith
  then have "real_of_int \<bar>round_half_even (x + y) - (round_half_even x + round_half_even y)\<bar> \<le> 3/2"
    by simp
  then show ?thesis by linarith
qed

lemma py_round_add:
  "\<bar>py_round n (x + y) - (py_round n x + py_round n y)\<bar> \<le> 1 / 10 ^ n"
proof -
  have "py_round n (x + y) - (py_round n x + py_round n y)
      = of_int (round_half_even (x * 10 ^ n + y * 10 ^ n)
                - (round_half_even (x * 10 ^ n) + round_half_even (y * 10 ^ n))) / 10 ^ n"
    by (simp add: py_round_def algebra_simps diff_divide_distrib add_divide_distrib)
  also have "\<bar>\<dots>\<bar> = of_int \<bar>round_half_even (x * 10 ^ n + y * 10 ^ n)
                - (round_half_even (x * 10 ^ n) + round_half_even (y * 10 ^ n))\<bar> / 10 ^ n"
    by simp
  also have "\<dots> \<le> of_int 1 / 10 ^ n"
    using round_half_even_add [of "x * 10 ^ n" "y * 10 ^ n"]
    by (intro divide_right_mono) (simp_all only: of_int_le_iff zero_le_power zero_le_numeral)
  finally show ?thesis by simp
qed

lemma call_gex_gex_row:
  "call_gex (gex_row cm pm spot T r k) = py_round 2 (strike_call_gex cm spot T r k)"
  by (simp add: gex_row_def Let_def)

lemma put_gex_gex_row:
  "put_gex (gex_row cm pm spot T r k) = py_round 2 (strike_put_gex pm spot T r k)"
  by (simp add: gex_row_def Let_def)

text \<open>
  C4, amended. In every row of the profile the stored \<open>net_gex\<close> differs from the sum of
  the stored \<open>call_gex\<close> and \<open>put_gex\<close> by at most one cent: the three fields are
  rounded to two decimals separately, and the exact invariant holds for the values before
  rounding.
\<close>

theorem net_gex_within_one_cent:
  assumes "row \<in> set (gex_by_strike (calculate_gex_profile calls puts spot dte r))"
  shows "\<bar>net_gex row - (call_gex row + put_gex row)\<bar> \<le> 1 / 100"
proof -
  from assms obtain k where
    row: "row = gex_row (leg_map calls) (leg_map puts) spot (time_to_expiry dte) r k"
    unfolding gex_by_strike_profile by auto
  show ?thesis
    unfolding row net_gex_gex_row call_gex_gex_row put_gex_gex_row
    using py_round_add [of 2 "strike_call_gex (leg_map calls) spot (time_to_expiry dte) r k"
        "strike_put_gex (leg_map puts) spot (time_to_expiry dte) r k"]
    by simp
qed

lemma sqrt_two_pi_expiry_bounds:
  "2108 / 1000 \<le> sqrt (2 * pi) * sqrt (406 / 365)"
  "sqrt (2 * pi) * sqrt (406 / 365) \<le> 29841 / 10000"
proof -
  have p1: "2 \<le> sqrt (2 * pi)"
    using pi_ge_two by (intro real_le_rsqrt) simp
  have p2: "sqrt (2 * pi) \<le> 28285 / 10000"
    using pi_less_4 by (intro real_le_lsqrt) (simp_all add: power2_eq_square)
  have t1: "1054 / 1000 \<le> sqrt (406 / 365 :: real)"
    by (intro real_le_rsqrt) (simp add: power2_eq_square)
  have t2: "sqrt (406 / 365 :: real) \<le> 1055 / 1000"
    by (intro real_le_lsqrt) (simp_all add: power2_eq_square)
  have "2 * (1054 / 1000) \<le> sqrt (2 * pi) * sqrt (406 / 365)"
    using p1 t1 by (intro mult_mono) simp_all
  then show "2108 / 1000 \<le> sqrt (2 * pi) * sqrt (406 / 365)" by simp
  have "sqrt (2 * pi) * sqrt (406 / 365) \<le> (28285 / 10000) * (1055 / 1000)"
    using p2 t2 by (intro mult_mono) simp_all
  then show "sqrt (2 * pi) * sqrt (406 / 365) \<le> 29841 / 10000" by simp
qed

lemma gamma_far_dated_value:
  "black_scholes_gamma 100 100 (406 / 365) (5 / 100) (1 / 100)
     = exp (- (203406203 / 14600000)) / (sqrt (2 * pi) * sqrt (406 / 365))"
proof -
  define s :: real where "s = sqrt (406 / 365)"
  have s0: "0 < s" unfolding s_def by simp
  have ss: "s * s = 406 / 365" unfolding s_def by simp
  have d1: "(ln (100 / 100) + (5 / 100 + 0.5 * (1 / 100)\<^sup>2) * (406 / 365)) / ((1 / 100) * s)
       = (1001 / 200) * s"
  proof -
    have "(ln (100 / 100) + (5 / 100 + 0.5 * (1 / 100)\<^sup>2) * (406 / 365)) / ((1 / 100) * s)
        = ((1001 / 200) * (s * s)) / s"
      unfolding ss by (simp add: power2_eq_square)
    also have "\<dots> = (1001 / 200) * s" using s0 by simp
    finally show ?thesis .
  qed
  have sq: "((1001 / 200) * s)\<^sup>2 = 203406203 / 7300000"
  proof -
    have "((1001 / 200) * s)\<^sup>2 = (1001 / 200) * (1001 / 200) * (s * s)"
      by (simp add: power2_eq_square)
    also have "\<dots> = 203406203 / 7300000" unfolding ss by simp
    finally show ?thesis .
  qed
  have "black_scholes_gamma 100 100 (406 / 365) (5 / 100) (1 / 100)
      = norm_pdf ((1001 / 200) * s) / (100 * (1 / 100) * s)"
    unfolding black_scholes_gamma_def Let_def s_def [symmetric] d1 by simp
  also have "\<dots> = exp (- (203406203 / 14600000)) / sqrt (2 * pi) / s"
    unfolding norm_pdf_def sq by simp
  finally show ?thesis unfolding s_def by simp
qed

lemma gamma_far_dated_bounds:
  "1 / 4 < 1000000 * black_scholes_gamma 100 100 (406 / 365) (5 / 100) (1 / 100)"
  "1000000 * black_scholes_gamma 100 100 (406 / 365) (5 / 100) (1 / 100) < 1 / 2"
proof -
  let ?E = "exp (- (203406203 / 14600000) :: real)"
  let ?D = "sqrt (2 * pi) * sqrt (406 / 365)"
  have D0: "0 < ?D" using sqrt_two_pi_expiry_bounds(1) by linarith
  have lo: "8487 / 10000000000 \<le> ?E" by (rule exp_minus_q_lower)
  have "?E = 1 / exp (203406203 / 14600000)" by (simp add: exp_minus field_simps)
  also have "\<dots> \<le> 1 / 1071701"
    using exp_q_lower by (intro divide_left_mono) simp_all
  finally have hi: "?E \<le> 1 / 1071701" .
  define z where "z = ?E / ?D"
  have "(8487 / 10000000000) / (29841 / 10000) \<le> z"
    unfolding z_def using lo sqrt_two_pi_expiry_bounds(2) D0 by (intro frac_le) simp_all
  then have "8487 / 29841000000 \<le> z" by simp
  then have "1 / 4 < 1000000 * z" by linarith
  then show "1 / 4 < 1000000 * black_scholes_gamma 100 100 (406 / 365) (5 / 100) (1 / 100)"
    unfolding gamma_far_dated_value z_def .
  have "z \<le> (1 / 1071701) / (2108 / 1000)"
    unfolding z_def using hi sqrt_two_pi_expiry_bounds(1) by (intro frac_le) simp_all
  then have "z \<le> 1000 / 2259145708" by simp
  then have "1000000 * z < 1 / 2" by linarith
  then show "1000000 * black_scholes_gamma 100 100 (406 / 365) (5 / 100) (1 / 100) < 1 / 2"
    unfolding gamma_far_dated_value z_def .
qed

lemma far_dated_roundings:
  fixes G :: real
  assumes "1 / 4 < 1000000 * G" and "1000000 * G < 1 / 2"
  shows "py_round 2 (G * 2 * 100 * 100) = 1 / 100"
    and "py_round 2 (- G * 1 * 100 * 100) = 0"
    and "py_round 2 (G * 2 * 100 * 100 + - G * 1 * 100 * 100) = 0"
proof -
  have "round_half_even (G * 2 * 100 * 100 * 10 ^ 2) = 1"
    using assms by (intro round_half_even_unique) simp_all
  then show "py_round 2 (G * 2 * 100 * 100) = 1 / 100" by (simp add: py_round_def)
  have "round_half_even (- G * 1 * 100 * 100 * 10 ^ 2) = 0"
    using assms by (intro round_half_even_unique) simp_all
  then show "py_round 2 (- G * 1 * 100 * 100) = 0" by (simp add: py_round_def)
  have "round_half_even ((G * 2 * 100 * 100 + - G * 1 * 100 * 100) * 10 ^ 2) = 0"
    using assms by (intro round_half_even_unique) simp_all
  then show "py_round 2 (G * 2 * 100 * 100 + - G * 1 * 100 * 100) = 0" by (simp add: py_round_def)
qed

text \<open>
  C4 as stated (the stored \<open>net_gex\<close> equals the stored \<open>call_gex\<close> plus the stored
  \<open>put_gex\<close> exactly) fails: for an at-the-money strike 100 expiring in 406 days, quoted
  with a stale implied volatility (floored to 0.01), call open interest 2 and put open
  interest 1, the row stores \<open>call_gex = 0.01\<close>, \<open>put_gex = 0\<close> and \<open>net_gex = 0\<close>.
\<close>

theorem separate_rounding_counterexample:
  "gex_triples (calculate_gex_profile
      [\<lparr>strike = Some 100, openInterest = Some 2, impliedVolatility = Some 0.00001\<rparr>]
      [\<lparr>strike = Some 100, openInterest = Some 1, impliedVolatility = Some 0.00001\<rparr>]
      100 406 0.05) = [(0.01, 0, 0)]
   \<and> (0::real) \<noteq> 0.01 + 0"
proof -
  let ?c = "\<lparr>strike = Some (100::real), openInterest = Some 2, impliedVolatility = Some (1 / 100000 :: real)\<rparr>"
  let ?p = "\<lparr>strike = Some (100::real), openInterest = Some 1, impliedVolatility = Some (1 / 100000 :: real)\<rparr>"
  let ?G = "black_scholes_gamma 100 100 (406 / 365) (5 / 100) (1 / 100)"
  have ps: "profile_strikes [?c] [?p] = [100]"
    by (simp add: profile_strikes_def leg_strikes_def leg_strike_def get_default_def)
  have T: "time_to_expiry 406 = 406 / 365" by (simp add: time_to_expiry_def)
  have cm: "leg_map [?c] 100 = Some ?c" and pm: "leg_map [?p] 100 = Some ?p"
    by (simp_all add: leg_map_def leg_strike_def get_default_def)
  have cg: "strike_call_gex (leg_map [?c]) 100 (406 / 365) (5 / 100) 100 = ?G * 2 * 100 * 100"
    by (simp add: strike_call_gex_def map_iv_def map_oi_def cm get_default_def SHARES_PER_CONTRACT_def)
  have pg: "strike_put_gex (leg_map [?p]) 100 (406 / 365) (5 / 100) 100 = - ?G * 1 * 100 * 100"
    by (simp add: strike_put_gex_def map_iv_def map_oi_def pm get_default_def SHARES_PER_CONTRACT_def)
  note r = far_dated_roundings [OF gamma_far_dated_bounds]
  have "gex_triples (calculate_gex_profile [?c] [?p] 100 406 (5 / 100))
      = [(py_round 2 (?G * 2 * 100 * 100), py_round 2 (- ?G * 1 * 100 * 100),
          py_round 2 (?G * 2 * 100 * 100 + - ?G * 1 * 100 * 100))]"
    unfolding gex_triples_def gex_by_strike_profile ps T
    by (simp only: list.map call_gex_gex_row put_gex_gex_row net_gex_gex_row cg pg)
  then have "gex_triples (calculate_gex_profile [?c] [?p] 100 406 (5 / 100)) = [(1 / 100, 0, 0)]"
    unfolding r .
  then show ?thesis by simp
qed

theorem net_gex_within_one_cent_witness:
  "\<bar>net_gex (hd (gex_by_strike (calculate_gex_profile
        [\<lparr>strike = Some 100, openInterest = Some 500, impliedVolatility = Some 0.3\<rparr>]
        [\<lparr>strike = Some 100, openInterest = Some 400, impliedVolatility = Some 0.3\<rparr>]
        100 10 0.05)))
    - (call_gex (hd (gex_by_strike (calculate_gex_profile
        [\<lparr>strike = Some 100, openInterest = Some 500, impliedVolatility = Some 0.3\<rparr>]
        [\<lparr>strike = Some 100, openInterest = Some 400, impliedVolatility = Some 0.3\<rparr>]
        100 10 0.05)))
       + put_gex (hd (gex_by_strike (calculate_gex_profile
        [\<lparr>strike = Some 100, openInterest = Some 500, impliedVolatility = Some 0.3\<rparr>]
        [\<lparr>strike = Some 100, openInterest = Some 400, impliedVolatility = Some 0.3\<rparr>]
        100 10 0.05))))\<bar> \<le> 1 / 100"
proof -
  let ?c = "\<lparr>strike = Some (100::real), openInterest = Some 500, impliedVolatility = Some (0.3 :: real)\<rparr>"
  let ?p = "\<lparr>strike = Some (100::real), openInterest = Some 400, impliedVolatility = Some (0.3 :: real)\<rparr>"
  have ps: "profile_strikes [?c] [?p] = [100]"
    by (simp add: profile_strikes_def leg_strikes_def leg_strike_def get_default_def)
  have "hd (gex_by_strike (calculate_gex_profile [?c] [?p] 100 10 0.05))
      \<in> set (gex_by_strike (calculate_gex_profile [?c] [?p] 100 10 0.05))"
    unfolding gex_by_strike_profile ps by simp
  then show ?thesis by (rule net_gex_within_one_cent)
qed

end
